theory Spec2Isabelle
  imports Complex_Main
begin

section \<open>Chat channel synchronisation core of \<^verbatim>\<open>core/code/chat.js\<close>\<close>

text \<open>
  The development embeds the chat subsystem: the per-channel store
  (\<^verbatim>\<open>chat._channels\<close>), the merge of a server batch into it
  (\<^verbatim>\<open>chat.updateOldNewHash\<close>, \<^verbatim>\<open>chat.writeDataToHash\<close>), the request builder
  (\<^verbatim>\<open>chat.genPostData\<close>, \<^verbatim>\<open>chat.requestChannel\<close>), the renderer
  (\<^verbatim>\<open>chat.renderData\<close>), the tab chooser (\<^verbatim>\<open>chat.chooseTab\<close>) and the markup
  transformation (\<^verbatim>\<open>transformMessage\<close>).

  JavaScript numbers that hold timestamps are modelled as \<open>int\<close>, strings as \<open>string\<close>,
  objects used as dictionaries as maps, arrays as lists. Mutation is explicit state
  passing; a thrown exception is the \<open>Inl\<close> branch of a sum. Functions of the host page
  and of libraries that are not part of the file (Leaflet, jQuery, \<^verbatim>\<open>window.*\<close> helpers)
  are parameters, collected in records.
\<close>

subsection \<open>Server records\<close>

type_synonym guid = string

text \<open>
  A markup entity is the two-element array \<^verbatim>\<open>[type, attributes]\<close>. Of the attribute
  object the code reads \<^verbatim>\<open>plain\<close> and \<^verbatim>\<open>team\<close> (absent on most entities, hence an
  option); every other property (\<^verbatim>\<open>name\<close>, \<^verbatim>\<open>address\<close>, \<^verbatim>\<open>latE6\<close>, ...) is kept as an
  association list in property order.
\<close>

datatype prim = PNull | PBool bool | PNum int | PStr string

record attrs =
  plain :: string
  team :: "string option"
  others :: "(string \<times> prim) list"

type_synonym entity = "string \<times> attrs"

type_synonym markup = "entity list"

text \<open>\<^verbatim>\<open>data[2].plext\<close> of a raw record, and the raw record \<^verbatim>\<open>[guid, time, {plext}]\<close>.\<close>

record plext =
  categories :: int
  plextTeam :: string
  plextType :: string
  plextMarkup :: markup

record raw =
  r_guid :: guid
  r_time :: int
  r_plext :: plext

subsection \<open>Parsed messages\<close>

record player =
  p_name :: string
  p_team :: nat

record parsed =
  m_guid :: guid
  m_time :: int
  m_public :: bool
  m_secure :: bool
  m_alert :: bool
  m_msgToPlayer :: bool
  m_type :: string
  m_narrowcast :: bool
  m_auto :: bool
  m_team :: nat
  m_player :: player
  m_markup :: markup

text \<open>
  The stored row \<^verbatim>\<open>[time, auto, html, nick, parsedData]\<close> of \<^verbatim>\<open>storageHash.data\<close>.
\<close>

record row =
  row_time :: int
  row_auto :: bool
  row_html :: string
  row_nick :: string
  row_parsed :: parsed

subsection \<open>Channel state\<close>

text \<open>
  One entry of \<^verbatim>\<open>chat._channels\<close>. The two GUID watermarks are deleted properties
  (\<open>None\<close>) until a batch sets them.
\<close>

record channel_state =
  data :: "guid \<rightharpoonup> row"
  guids :: "guid list"
  oldestTimestamp :: int
  oldestGUID :: "guid option"
  newestTimestamp :: int
  newestGUID :: "guid option"

text \<open>The object that \<^verbatim>\<open>chat.initChannelData\<close> leaves behind for a channel.\<close>

definition initialChannelState :: channel_state where
  "initialChannelState =
     \<lparr>data = Map.empty, guids = [], oldestTimestamp = - 1, oldestGUID = None,
      newestTimestamp = - 1, newestGUID = None\<rparr>"

text \<open>
  \<^verbatim>\<open>storageHash.data\<close> is created by the object literal \<^verbatim>\<open>{}\<close>, so the operator
  \<^verbatim>\<open>in\<close> also answers true for the properties inherited from \<^verbatim>\<open>Object.prototype\<close>.
\<close>

definition Object_prototype_properties :: "string list" where
  "Object_prototype_properties =
     [''constructor'', ''__defineGetter__'', ''__defineSetter__'', ''hasOwnProperty'',
      ''__lookupGetter__'', ''__lookupSetter__'', ''isPrototypeOf'',
      ''propertyIsEnumerable'', ''toString'', ''valueOf'', ''__proto__'',
      ''toLocaleString'']"

definition js_in :: "string \<Rightarrow> (string \<rightharpoonup> 'a) \<Rightarrow> bool" where
  "js_in k obj = (obj k \<noteq> None \<or> k \<in> set Object_prototype_properties)"

subsection \<open>Watermarks: \<^verbatim>\<open>chat.updateOldNewHash\<close>\<close>

text \<open>
  The two guarded assignments of the function body, on \<^verbatim>\<open>last\<close> and \<^verbatim>\<open>first\<close>
  (each the pair of \<^verbatim>\<open>guid\<close> and \<^verbatim>\<open>time\<close>; primed here, as \<open>last\<close> is a list function).
\<close>

definition updateOldest :: "guid \<times> int \<Rightarrow> bool \<Rightarrow> channel_state \<Rightarrow> channel_state" where
  "updateOldest last' isOlderMsgs storageHash =
     (if oldestTimestamp storageHash = - 1 \<or> oldestTimestamp storageHash \<ge> snd last'
      then (if isOlderMsgs \<or> oldestTimestamp storageHash \<noteq> snd last'
            then storageHash\<lparr>oldestTimestamp := snd last', oldestGUID := Some (fst last')\<rparr>
            else storageHash)
      else storageHash)"

definition updateNewest :: "guid \<times> int \<Rightarrow> bool \<Rightarrow> channel_state \<Rightarrow> channel_state" where
  "updateNewest first' isOlderMsgs storageHash =
     (if newestTimestamp storageHash = - 1 \<or> newestTimestamp storageHash \<le> snd first'
      then (if \<not> isOlderMsgs \<or> newestTimestamp storageHash \<noteq> snd first'
            then storageHash\<lparr>newestTimestamp := snd first', newestGUID := Some (fst first')\<rparr>
            else storageHash)
      else storageHash)"

definition updateOldNewHash :: "raw list \<Rightarrow> channel_state \<Rightarrow> bool \<Rightarrow> bool \<Rightarrow> channel_state" where
  "updateOldNewHash result storageHash isOlderMsgs isAscendingOrder =
     (if length result > 0 then
        let first0 = (r_guid (result ! 0), r_time (result ! 0));
            last0 = (r_guid (result ! (length result - 1)), r_time (result ! (length result - 1)));
            first' = (if isAscendingOrder then last0 else first0);
            last' = (if isAscendingOrder then first0 else last0)
        in updateNewest first' isOlderMsgs (updateOldest last' isOlderMsgs storageHash)
      else storageHash)"

subsection \<open>Parsing: \<^verbatim>\<open>chat.parseMsgData\<close>\<close>

text \<open>\<^verbatim>\<open>s.replace(/: $/, '')\<close>: cut a final colon and blank.\<close>

definition cutColonSpace :: "string \<Rightarrow> string" where
  "cutColonSpace s =
     (if length s \<ge> 2 \<and> drop (length s - 2) s = '': '' then take (length s - 2) s else s)"

text \<open>
  The \<^verbatim>\<open>markup.forEach\<close> of \<^verbatim>\<open>parseMsgData\<close>: a \<^verbatim>\<open>SENDER\<close> entity sets the name, a
  \<^verbatim>\<open>PLAYER\<close> entity sets name and team; later entities overwrite earlier ones.
  \<^verbatim>\<open>window.teamStringToId\<close> is a parameter.
\<close>

fun scanPlayer :: "(string option \<Rightarrow> nat) \<Rightarrow> player \<Rightarrow> markup \<Rightarrow> player" where
  "scanPlayer teamStringToId pl [] = pl"
| "scanPlayer teamStringToId pl (ent # ents) =
     scanPlayer teamStringToId
       (if fst ent = ''SENDER'' then pl\<lparr>p_name := cutColonSpace (plain (snd ent))\<rparr>
        else if fst ent = ''PLAYER''
          then pl\<lparr>p_name := plain (snd ent), p_team := teamStringToId (team (snd ent))\<rparr>
        else pl)
       ents"

definition parseMsgData :: "(string option \<Rightarrow> nat) \<Rightarrow> raw \<Rightarrow> parsed" where
  "parseMsgData teamStringToId json =
     (let cats = categories (r_plext json);
          isPublic = (and cats 1 = 1);
          isSecure = (and cats 2 = 2);
          msgAlert = (and cats 4 = 4);
          msgToPlayer = (msgAlert \<and> (isPublic \<or> isSecure));
          tm = teamStringToId (Some (plextTeam (r_plext json)));
          pl = scanPlayer teamStringToId \<lparr>p_name = [], p_team = tm\<rparr> (plextMarkup (r_plext json))
      in \<lparr>m_guid = r_guid json, m_time = r_time json, m_public = isPublic, m_secure = isSecure,
          m_alert = msgAlert, m_msgToPlayer = msgToPlayer, m_type = plextType (r_plext json),
          m_narrowcast = (plextType (r_plext json) = ''SYSTEM_NARROWCAST''),
          m_auto = (plextType (r_plext json) \<noteq> ''PLAYER_GENERATED''),
          m_team = tm, m_player = pl, m_markup = plextMarkup (r_plext json)\<rparr>)"

subsection \<open>Merging a batch: \<^verbatim>\<open>chat.writeDataToHash\<close>\<close>

text \<open>
  The environment of the merge: \<^verbatim>\<open>window.teamStringToId\<close> and the row renderer
  \<^verbatim>\<open>chat.renderMsgRow\<close>, which builds an HTML string from the parsed message and neither
  reads nor writes the channel state.
\<close>

record merge_env =
  teamStringToId :: "string option \<Rightarrow> nat"
  renderMsgRow :: "parsed \<Rightarrow> string"

text \<open>The body of the \<^verbatim>\<open>newData.result.forEach\<close> callback.\<close>

definition writeOne :: "merge_env \<Rightarrow> bool \<Rightarrow> channel_state \<Rightarrow> raw \<Rightarrow> channel_state" where
  "writeOne env isAscendingOrder storageHash json =
     (if js_in (r_guid json) (data storageHash) then storageHash
      else
        let parsedData = parseMsgData (teamStringToId env) json;
            entry = \<lparr>row_time = m_time parsedData, row_auto = m_auto parsedData,
                     row_html = renderMsgRow env parsedData,
                     row_nick = p_name (m_player parsedData), row_parsed = parsedData\<rparr>;
            s1 = storageHash\<lparr>data := (data storageHash)(m_guid parsedData \<mapsto> entry)\<rparr>
        in if isAscendingOrder then s1\<lparr>guids := guids s1 @ [m_guid parsedData]\<rparr>
           else s1\<lparr>guids := m_guid parsedData # guids s1\<rparr>)"

definition writeDataToHash ::
    "merge_env \<Rightarrow> raw list \<Rightarrow> channel_state \<Rightarrow> bool \<Rightarrow> bool \<Rightarrow> channel_state" where
  "writeDataToHash env result storageHash isOlderMsgs isAscendingOrder =
     foldl (writeOne env isAscendingOrder)
       (updateOldNewHash result storageHash isOlderMsgs isAscendingOrder) result"

text \<open>A sequence of merges, each with its own batch and flags.\<close>

record merge_call =
  batch :: "raw list"
  isOlderMsgs :: bool
  isAscendingOrder :: bool

definition merges :: "merge_env \<Rightarrow> channel_state \<Rightarrow> merge_call list \<Rightarrow> channel_state" where
  "merges env s calls =
     foldl (\<lambda>st c. writeDataToHash env (batch c) st (isOlderMsgs c) (isAscendingOrder c)) s calls"

subsection \<open>Markup arrays in the heap: \<^verbatim>\<open>transformMessage\<close>\<close>

text \<open>
  \<^verbatim>\<open>transformMessage\<close> assigns to a property of an attribute object and splices the outer
  array, so here the markup lives in a heap. The heap is typed: outer arrays hold the
  addresses of entity arrays, an entity array \<^verbatim>\<open>[type, attributes]\<close> holds its type and the
  address of its attribute object, and attribute objects hold values. An address is an
  index into its store; allocation appends.
\<close>

record heap =
  arrays :: "nat list list"
  entities :: "(string \<times> nat) list"
  objects :: "attrs list"

text \<open>Every address reachable from the markup array at \<open>a\<close> is allocated.\<close>

definition wf_markup :: "heap \<Rightarrow> nat \<Rightarrow> bool" where
  "wf_markup h a =
     (a < length (arrays h) \<and>
      (\<forall>e\<in>set (arrays h ! a).
         e < length (entities h) \<and> snd (entities h ! e) < length (objects h)))"

text \<open>The value of the markup array at \<open>a\<close>.\<close>

definition readMarkup :: "heap \<Rightarrow> nat \<Rightarrow> markup" where
  "readMarkup h a =
     map (\<lambda>e. (fst (entities h ! e), objects h ! snd (entities h ! e))) (arrays h ! a)"

text \<open>
  \<^verbatim>\<open>JSON.parse(JSON.stringify(markup))\<close>: the text form holds the values only, and parsing
  allocates a new attribute object and a new entity array for every element, and the new
  outer array. Strings, numbers, booleans and \<^verbatim>\<open>null\<close> pass through unchanged. The \<open>i\<close>-th
  new entity is at \<open>length (entities h) + i\<close>, its object at \<open>length (objects h) + i\<close>.
\<close>

definition jsonCopy :: "heap \<Rightarrow> nat \<Rightarrow> heap \<times> nat" where
  "jsonCopy h a =
     (let es = arrays h ! a
      in (h\<lparr>objects := objects h @ map (\<lambda>e. objects h ! snd (entities h ! e)) es,
            entities := entities h @
              map (\<lambda>i. (fst (entities h ! (es ! i)), length (objects h) + i)) [0 ..< length es],
            arrays := arrays h @ [map (\<lambda>i. length (entities h) + i) [0 ..< length es]]\<rparr>,
          length (arrays h)))"

text \<open>\<^verbatim>\<open>xs.splice(i, n)\<close>, whose return value the code drops.\<close>

definition splice :: "nat \<Rightarrow> nat \<Rightarrow> 'a list \<Rightarrow> 'a list" where
  "splice i n xs = take i xs @ drop (i + n) xs"

text \<open>Type and attribute object of the \<open>i\<close>-th entity of the array at \<open>a\<close>.\<close>

definition entType :: "heap \<Rightarrow> nat \<Rightarrow> nat \<Rightarrow> string" where
  "entType h a i = fst (entities h ! (arrays h ! a ! i))"

definition entObject :: "heap \<Rightarrow> nat \<Rightarrow> nat \<Rightarrow> nat" where
  "entObject h a i = snd (entities h ! (arrays h ! a ! i))"

text \<open>The three steps of the function body, each on the array \<^verbatim>\<open>newMarkup\<close> at \<open>nm\<close>.\<close>

definition collapseFaction :: "heap \<Rightarrow> nat \<Rightarrow> heap" where
  "collapseFaction h nm =
     (if length (arrays h ! nm) > 4 then
        if entType h nm 3 = ''FACTION'' \<and> entType h nm 4 = ''TEXT'' \<and>
           (plain (objects h ! entObject h nm 4) = '' Link '' \<or>
            plain (objects h ! entObject h nm 4) = '' Control Field @'')
        then
          let h1 = h\<lparr>objects := (objects h)[entObject h nm 4 :=
                      (objects h ! entObject h nm 4)
                        \<lparr>team := team (objects h ! entObject h nm 3)\<rparr>]\<rparr>
          in h1\<lparr>arrays := (arrays h1)[nm := splice 3 1 (arrays h1 ! nm)]\<rparr>
        else h
      else h)"

definition skipAgent :: "heap \<Rightarrow> nat \<Rightarrow> heap" where
  "skipAgent h nm =
     (if length (arrays h ! nm) > 1 then
        if entType h nm 0 = ''TEXT'' \<and> plain (objects h ! entObject h nm 0) = ''Agent '' \<and>
           entType h nm 1 = ''PLAYER''
        then h\<lparr>arrays := (arrays h)[nm := splice 0 2 (arrays h ! nm)]\<rparr>
        else h
      else h)"

definition skipFactionAgent :: "heap \<Rightarrow> nat \<Rightarrow> heap" where
  "skipFactionAgent h nm =
     (if length (arrays h ! nm) > 2 then
        if entType h nm 0 = ''FACTION'' \<and> entType h nm 1 = ''TEXT'' \<and>
           plain (objects h ! entObject h nm 1) = '' agent '' \<and> entType h nm 2 = ''PLAYER''
        then h\<lparr>arrays := (arrays h)[nm := splice 0 3 (arrays h ! nm)]\<rparr>
        else h
      else h)"

text \<open>The heap after the call, and the address of the returned array.\<close>

definition transformMessage :: "heap \<Rightarrow> nat \<Rightarrow> heap \<times> nat" where
  "transformMessage h markup =
     (let (h0, newMarkup) = jsonCopy h markup
      in (skipFactionAgent (skipAgent (collapseFaction h0 newMarkup) newMarkup) newMarkup,
          newMarkup))"

text \<open>
  The transformation as a function on values: what the returned array holds, in terms of
  what the argument holds. The three steps again, on lists of entities.
\<close>

definition collapseFactionValue :: "markup \<Rightarrow> markup" where
  "collapseFactionValue m =
     (if length m > 4 \<and> fst (m ! 3) = ''FACTION'' \<and> fst (m ! 4) = ''TEXT'' \<and>
         (plain (snd (m ! 4)) = '' Link '' \<or> plain (snd (m ! 4)) = '' Control Field @'')
      then splice 3 1 (m[4 := (fst (m ! 4), (snd (m ! 4))\<lparr>team := team (snd (m ! 3))\<rparr>)])
      else m)"

definition skipAgentValue :: "markup \<Rightarrow> markup" where
  "skipAgentValue m =
     (if length m > 1 \<and> fst (m ! 0) = ''TEXT'' \<and> plain (snd (m ! 0)) = ''Agent '' \<and>
         fst (m ! 1) = ''PLAYER''
      then splice 0 2 m else m)"

definition skipFactionAgentValue :: "markup \<Rightarrow> markup" where
  "skipFactionAgentValue m =
     (if length m > 2 \<and> fst (m ! 0) = ''FACTION'' \<and> fst (m ! 1) = ''TEXT'' \<and>
         plain (snd (m ! 1)) = '' agent '' \<and> fst (m ! 2) = ''PLAYER''
      then splice 0 3 m else m)"

definition transformValue :: "markup \<Rightarrow> markup" where
  "transformValue m = skipFactionAgentValue (skipAgentValue (collapseFactionValue m))"

text \<open>Every cell of \<open>h\<close> is a cell of \<open>h'\<close> with the same content.\<close>

definition unchangedOn :: "heap \<Rightarrow> heap \<Rightarrow> bool" where
  "unchangedOn h h' =
     (length (arrays h) \<le> length (arrays h') \<and> take (length (arrays h)) (arrays h') = arrays h \<and>
      length (entities h) \<le> length (entities h') \<and>
      take (length (entities h)) (entities h') = entities h \<and>
      length (objects h) \<le> length (objects h') \<and>
      take (length (objects h)) (objects h') = objects h)"

text \<open>
  The array at \<open>nm\<close> and everything it reaches was allocated after \<open>h\<close>, and no two of its
  entities share an attribute object.
\<close>

definition freshCopy :: "heap \<Rightarrow> heap \<Rightarrow> nat \<Rightarrow> bool" where
  "freshCopy h h' nm =
     (length (arrays h) \<le> nm \<and> nm < length (arrays h') \<and>
      list_all (\<lambda>e. length (entities h) \<le> e \<and> e < length (entities h') \<and>
                    length (objects h) \<le> snd (entities h' ! e) \<and>
                    snd (entities h' ! e) < length (objects h'))
        (arrays h' ! nm) \<and>
      distinct (map (\<lambda>e. snd (entities h' ! e)) (arrays h' ! nm)))"

subsection \<open>Properties of the store, as predicates\<close>

text \<open>
  A batch is delivered in the direction its flag announces: ascending by timestamp when
  \<open>isAscendingOrder\<close> is set, descending (newest first) otherwise.
\<close>

definition batchOrdered :: "merge_call \<Rightarrow> bool" where
  "batchOrdered c =
     (if isAscendingOrder c then sorted (map r_time (batch c))
      else sorted (rev (map r_time (batch c))))"

text \<open>The order list holds exactly the keys of the messages map, each once.\<close>

definition orderIntegrity :: "channel_state \<Rightarrow> bool" where
  "orderIntegrity s = (set (guids s) = dom (data s) \<and> distinct (guids s))"

text \<open>Every stored row lies between the two watermarks.\<close>

definition watermarksCover :: "channel_state \<Rightarrow> bool" where
  "watermarksCover s =
     (\<forall>g r. data s g = Some r \<longrightarrow>
        oldestTimestamp s \<le> row_time r \<and> row_time r \<le> newestTimestamp s)"

text \<open>
  The inductive form: either nothing was merged yet and both watermarks are the
  sentinel, or neither is the sentinel and the rows are covered.
\<close>

definition watermarksInv :: "channel_state \<Rightarrow> bool" where
  "watermarksInv s =
     ((oldestTimestamp s = - 1 \<and> newestTimestamp s = - 1 \<and> data s = Map.empty) \<or>
      (oldestTimestamp s \<noteq> - 1 \<and> newestTimestamp s \<noteq> - 1 \<and> watermarksCover s))"

subsection \<open>Concrete inputs\<close>

definition exampleEnv :: merge_env where
  "exampleEnv =
     \<lparr>teamStringToId = (\<lambda>t. 0), renderMsgRow = (\<lambda>p. ''<tr>'' @ m_guid p @ ''</tr>'')\<rparr>"

definition exampleRaw :: "guid \<Rightarrow> int \<Rightarrow> raw" where
  "exampleRaw g t =
     \<lparr>r_guid = g, r_time = t,
      r_plext = \<lparr>categories = 1, plextTeam = ''RESISTANCE'', plextType = ''PLAYER_GENERATED'',
                 plextMarkup = []\<rparr>\<rparr>"

text \<open>
  Two messages of the same millisecond, merged as a forward (ascending) batch into the
  initial state: \<open>g1\<close> becomes the oldest and \<open>g2\<close> the newest GUID.
\<close>

definition tieState :: channel_state where
  "tieState =
     writeDataToHash exampleEnv [exampleRaw ''g1'' 100, exampleRaw ''g2'' 100]
       initialChannelState False True"


subsection \<open>JavaScript values given as channel or tab\<close>

text \<open>
  The channel argument of \<^verbatim>\<open>genPostData\<close> and \<^verbatim>\<open>requestChannel\<close> and the tab argument of
  \<^verbatim>\<open>chooseTab\<close> come from plugins and from \<^verbatim>\<open>data-channel\<close> attributes, so they are any
  JavaScript value. Numbers are the integral ones; \<open>JSObject\<close> is a plain object, without
  conversion methods of its own; the number of a symbol tells it from other symbols.
\<close>

datatype js_value =
  JSUndefined | JSNull | JSBoolean bool | JSNumber int | JSString string | JSObject |
  JSSymbol nat

datatype js_error = Error string | TypeError string

fun show_nat :: "nat \<Rightarrow> string" where
  "show_nat n =
     (if n < 10 then [''0123456789'' ! n]
      else show_nat (n div 10) @ [''0123456789'' ! (n mod 10)])"

definition show_int :: "int \<Rightarrow> string" where
  "show_int i = (if i < 0 then ''-'' @ show_nat (nat (- i)) else show_nat (nat i))"

text \<open>
  String conversion, as string concatenation applies it to an operand. A symbol has
  none: the concatenation throws.
\<close>

fun js_toString :: "js_value \<Rightarrow> js_error + string" where
  "js_toString JSUndefined = Inr ''undefined''"
| "js_toString JSNull = Inr ''null''"
| "js_toString (JSBoolean b) = Inr (if b then ''true'' else ''false'')"
| "js_toString (JSNumber n) = Inr (show_int n)"
| "js_toString (JSString s) = Inr s"
| "js_toString JSObject = Inr ''[object Object]''"
| "js_toString (JSSymbol n) = Inl (TypeError ''Cannot convert a Symbol value to a string'')"

text \<open>
  The key that \<^verbatim>\<open>obj[v]\<close> reads or writes: a symbol is a key by itself, every other value
  is converted to a string.
\<close>

datatype js_key = StringKey string | SymbolKey nat

fun js_toPropertyKey :: "js_value \<Rightarrow> js_key" where
  "js_toPropertyKey JSUndefined = StringKey ''undefined''"
| "js_toPropertyKey JSNull = StringKey ''null''"
| "js_toPropertyKey (JSBoolean b) = StringKey (if b then ''true'' else ''false'')"
| "js_toPropertyKey (JSNumber n) = StringKey (show_int n)"
| "js_toPropertyKey (JSString s) = StringKey s"
| "js_toPropertyKey JSObject = StringKey ''[object Object]''"
| "js_toPropertyKey (JSSymbol n) = SymbolKey n"


datatype log_entry = LogLog string | LogWarn string

subsection \<open>Channels, their elements and the chat state\<close>

text \<open>
  An entry of \<^verbatim>\<open>chat.channels\<close>. Of the optional functions only \<^verbatim>\<open>render\<close> is called by
  the functions embedded here: it is \<^verbatim>\<open>chat.renderChannel\<close> for the three stock channels
  and a function of the plugin for an added channel.
\<close>

datatype render_fn = RenderChannel | PluginRender

record channel_desc =
  id' :: string
  name :: string
  localBounds :: bool
  inputPrompt :: "string option"
  inputClass :: "string option"
  render :: "render_fn option"

definition stockChannels :: "channel_desc list" where
  "stockChannels =
     [\<lparr>id' = ''all'', name = ''All'', localBounds = True, inputPrompt = Some ''broadcast:'',
       inputClass = Some ''public'', render = Some RenderChannel\<rparr>,
      \<lparr>id' = ''faction'', name = ''Faction'', localBounds = True,
       inputPrompt = Some ''tell faction:'', inputClass = Some ''faction'',
       render = Some RenderChannel\<rparr>,
      \<lparr>id' = ''alerts'', name = ''Alerts'', localBounds = False,
       inputPrompt = Some ''tell Jarvis:'', inputClass = Some ''alerts'',
       render = Some RenderChannel\<rparr>]"

text \<open>
  The element \<^verbatim>\<open>#chat<id>\<close> of a channel: whether its own style displays it, its inner
  HTML, the three \<^verbatim>\<open>.data()\<close> entries the code keeps on it, and its scroll offset.
\<close>

record pane =
  displayed :: bool
  html :: string
  needsClearing :: bool
  needsScrollTop :: "int option"
  ignoreNextScroll :: bool
  scrollTop :: int

text \<open>
  The state the embedded functions read and write. \<open>'b\<close> is the type of a Leaflet
  bounds object. The model takes \<^verbatim>\<open>chat.setupTabs\<close> to have run: every channel id has
  its element, so \<open>panes\<close> is total. \<open>requestRunning\<close> is the truth value of a read of
  \<^verbatim>\<open>chat._requestRunning\<close>; \<open>loading\<close> holds the \<^verbatim>\<open>data-channel\<close> values whose tab link was
  asked to take the class \<^verbatim>\<open>loading\<close>; \<open>activeTab\<close> is the \<^verbatim>\<open>data-channel\<close> attribute of the
  link with class \<^verbatim>\<open>active\<close> (\<open>None\<close> when no link has it),
  \<open>storedTab\<close> is \<^verbatim>\<open>localStorage['iitc-chat-tab']\<close>, \<open>inputClasses\<close> and \<open>markText\<close> are the
  classes and the prompt of \<^verbatim>\<open>#chatinput\<close>. The last fields record calls of collaborators:
  \<^verbatim>\<open>log.log\<close>/\<^verbatim>\<open>log.warn\<close>, \<^verbatim>\<open>window.postAjax\<close>, \<^verbatim>\<open>window.renderUpdateStatus\<close>,
  \<^verbatim>\<open>window.startRefreshTimeout\<close>.
\<close>

record post_data =
  minLatE6 :: int
  minLngE6 :: int
  maxLatE6 :: int
  maxLngE6 :: int
  minTimestampMs :: int
  maxTimestampMs :: int
  tab :: string
  plextContinuationGuid :: "guid option"
  ascendingTimestampOrder :: "bool option"

text \<open>
  A call \<^verbatim>\<open>postAjax('getPlexts', d, success, error)\<close>: the data, and the variables its two
  callbacks close over.
\<close>

record request =
  postData :: post_data
  req_channel :: js_value
  req_getOlderMsgs :: bool
  req_isRetry :: bool

record 'b chat =
  oldBBox :: "'b option"
  channels :: "channel_desc list"
  channelStore :: "string \<rightharpoonup> channel_state"
  requestRunning :: "js_key \<Rightarrow> bool"
  panes :: "string \<Rightarrow> pane"
  chatVisible :: bool
  loading :: "string set"
  activeTab :: "string option"
  storedTab :: "string option"
  inputClasses :: "string set"
  markText :: string
  logged :: "log_entry list"
  outbox :: "request list"
  statusRenders :: nat
  refreshTimeouts :: "int list"

text \<open>\<^verbatim>\<open>chat.initChannelData\<close>: every field of the channel's object is reset.\<close>

definition initChannelData :: "'b chat \<Rightarrow> channel_desc \<Rightarrow> 'b chat" where
  "initChannelData s channel =
     s\<lparr>channelStore := (channelStore s)(id' channel \<mapsto> initialChannelState)\<rparr>"

text \<open>
  \<^verbatim>\<open>chat.getChannelDesc\<close>: the loop does not stop at a match, the last one stays. The
  test is \<^verbatim>\<open>===\<close>, so only a string matches an id.
\<close>

definition getChannelDesc :: "channel_desc list \<Rightarrow> js_value \<Rightarrow> channel_desc option" where
  "getChannelDesc chans t =
     foldl (\<lambda>channelObject entry. if JSString (id' entry) = t then Some entry else channelObject)
       None chans"

subsection \<open>The request builder: \<^verbatim>\<open>chat.genPostData\<close>\<close>

text \<open>
  Leaflet's \<^verbatim>\<open>LatLngBounds\<close> methods are parameters: \<^verbatim>\<open>pad\<close>, \<^verbatim>\<open>contains\<close>,
  \<^verbatim>\<open>toBBoxString\<close>, and the four rounded corner coordinates
  \<^verbatim>\<open>Math.round(b.getSouthWest().lat*1E6)\<close> and so on.
\<close>

record 'b leaflet =
  pad :: "'b \<Rightarrow> rat \<Rightarrow> 'b"
  contains :: "'b \<Rightarrow> 'b \<Rightarrow> bool"
  toBBoxString :: "'b \<Rightarrow> string"
  swLatE6 :: "'b \<Rightarrow> int"
  swLngE6 :: "'b \<Rightarrow> int"
  neLatE6 :: "'b \<Rightarrow> int"
  neLngE6 :: "'b \<Rightarrow> int"

definition CHAT_BOUNDINGBOX_SAME_FACTOR :: rat where
  "CHAT_BOUNDINGBOX_SAME_FACTOR = 1 / 10"

text \<open>The test of the \<^verbatim>\<open>if\<close>, before its negation: each padded box contains the other.\<close>

definition sameBBox :: "'b leaflet \<Rightarrow> 'b \<Rightarrow> 'b \<Rightarrow> bool" where
  "sameBBox L b old =
     (contains L (pad L b CHAT_BOUNDINGBOX_SAME_FACTOR) old \<and>
      contains L (pad L old CHAT_BOUNDINGBOX_SAME_FACTOR) b)"

text \<open>The callback of \<^verbatim>\<open>chat.channels.forEach\<close> in the reset.\<close>

definition resetIfLocal :: "'b chat \<Rightarrow> channel_desc \<Rightarrow> 'b chat" where
  "resetIfLocal s entry =
     (if localBounds entry then
        let s1 = initChannelData s entry
        in s1\<lparr>panes := (panes s1)(id' entry := (panes s1 (id' entry))\<lparr>needsClearing := True\<rparr>)\<rparr>
      else s)"

text \<open>
  The clear management at the head of \<^verbatim>\<open>genPostData\<close>: set \<^verbatim>\<open>chat._oldBBox\<close> if it is
  unset, compare, and on a change log, reset the viewport-scoped channels and store the new
  box. \<open>b\<close> is \<^verbatim>\<open>window.clampLatLngBounds(map.getBounds())\<close>.
\<close>

definition clearOnBBoxChange :: "'b leaflet \<Rightarrow> 'b \<Rightarrow> 'b chat \<Rightarrow> 'b chat" where
  "clearOnBBoxChange L b s =
     (let old = (case oldBBox s of None \<Rightarrow> b | Some b0 \<Rightarrow> b0);
          s1 = s\<lparr>oldBBox := Some old\<rparr>
      in if \<not> sameBBox L b old then
           (foldl resetIfLocal
              (s1\<lparr>logged := logged s1 @
                 [LogLog (''Bounding Box changed, chat will be cleared (old: '' @
                    toBBoxString L old @ ''; new: '' @ toBBoxString L b @ '')'')]\<rparr>)
              (channels s1))\<lparr>oldBBox := Some b\<rparr>
         else s1)"

text \<open>
  The second parameter of the source, \<^verbatim>\<open>_storageHash\<close>, is never read and is left out:
  the channel's object is read from \<^verbatim>\<open>chat._channels\<close> after the clear management. The
  result pairs the return value or exception with the state after the call.
  \<^verbatim>\<open>$.extend\<close> skips an undefined value, so an unset GUID leaves
  \<^verbatim>\<open>plextContinuationGuid\<close> unset. For a channel that is no key of \<^verbatim>\<open>chat._channels\<close> the
  read of \<^verbatim>\<open>storageHash.oldestTimestamp\<close> or \<^verbatim>\<open>storageHash.newestTimestamp\<close> throws, unless
  the name is inherited from \<^verbatim>\<open>Object.prototype\<close>: then both fields read as
  \<^verbatim>\<open>undefined\<close> and the data stays as built.
\<close>

definition genPostData ::
    "'b leaflet \<Rightarrow> 'b \<Rightarrow> 'b chat \<Rightarrow> js_value \<Rightarrow> bool \<Rightarrow> (js_error + post_data) \<times> 'b chat" where
  "genPostData L b s channel getOlderMsgs =
     (case channel of
        JSString c \<Rightarrow>
          let s2 = clearOnBBoxChange L b s;
              d = \<lparr>minLatE6 = swLatE6 L b, minLngE6 = swLngE6 L b, maxLatE6 = neLatE6 L b,
                   maxLngE6 = neLngE6 L b, minTimestampMs = - 1, maxTimestampMs = - 1, tab = c,
                   plextContinuationGuid = None, ascendingTimestampOrder = None\<rparr>
          in (case channelStore s2 c of
                None \<Rightarrow>
                  if c \<in> set Object_prototype_properties then (Inr d, s2)
                  else (Inl (TypeError ''storageHash is undefined''), s2)
              | Some storageHash \<Rightarrow>
                  if getOlderMsgs then
                    (Inr (d\<lparr>maxTimestampMs := oldestTimestamp storageHash,
                             plextContinuationGuid := oldestGUID storageHash\<rparr>), s2)
                  else
                    let min' = newestTimestamp storageHash;
                        d1 = d\<lparr>minTimestampMs := min',
                               plextContinuationGuid := newestGUID storageHash\<rparr>
                    in (Inr (if min' > - 1 then d1\<lparr>ascendingTimestampOrder := Some True\<rparr> else d1),
                        s2))
      | _ \<Rightarrow>
          (Inl (Error ''API changed: isFaction flag now a channel string - all, faction, alerts''),
           s))"

subsection \<open>Requests: \<^verbatim>\<open>chat.requestChannel\<close> and its failure callback\<close>

text \<open>
  What the page supplies at the time of a call: Leaflet, the current clamped map bounds
  and \<^verbatim>\<open>window.isIdle()\<close>.
\<close>

record 'b page =
  leaflet :: "'b leaflet"
  mapBounds :: 'b
  isIdle :: bool

text \<open>
  The flag is read and set under the property key of the channel argument. The selector
  of the tab link is built by string concatenation, which throws for a symbol, after the
  flag was set.
\<close>

definition requestChannel ::
    "'b page \<Rightarrow> 'b chat \<Rightarrow> js_value \<Rightarrow> bool \<Rightarrow> bool \<Rightarrow> (js_error + unit) \<times> 'b chat" where
  "requestChannel E s channel getOlderMsgs isRetry =
     (let key = js_toPropertyKey channel in
      if requestRunning s key \<and> \<not> isRetry then (Inr (), s)
      else if isIdle E then (Inr (), s\<lparr>statusRenders := Suc (statusRenders s)\<rparr>)
      else
        (case js_toString channel of
           Inl e \<Rightarrow> (Inl e, s\<lparr>requestRunning := (requestRunning s)(key := True)\<rparr>)
         | Inr selected \<Rightarrow>
             let s1 = s\<lparr>requestRunning := (requestRunning s)(key := True),
                        loading := insert selected (loading s)\<rparr>
             in (case genPostData (leaflet E) (mapBounds E) s1 channel getOlderMsgs of
                   (Inl e, s2) \<Rightarrow> (Inl e, s2)
                 | (Inr d, s2) \<Rightarrow>
                     (Inr (), s2\<lparr>outbox := outbox s2 @
                        [\<lparr>postData = d, req_channel = channel, req_getOlderMsgs = getOlderMsgs,
                          req_isRetry = isRetry\<rparr>]\<rparr>))))"

text \<open>
  The error callback handed to \<^verbatim>\<open>postAjax\<close>: for a retry it clears the flag, otherwise
  it calls \<^verbatim>\<open>requestChannel\<close> again with \<^verbatim>\<open>isRetry\<close> set. \<open>E\<close> is the page at the time
  of the failure.
\<close>

definition requestFailed :: "'b page \<Rightarrow> 'b chat \<Rightarrow> request \<Rightarrow> (js_error + unit) \<times> 'b chat" where
  "requestFailed E s r =
     (if req_isRetry r
      then (Inr (), s\<lparr>requestRunning :=
              (requestRunning s)(js_toPropertyKey (req_channel r) := False)\<rparr>)
      else requestChannel E s (req_channel r) (req_getOlderMsgs r) True)"

subsection \<open>The renderer: \<^verbatim>\<open>chat.renderData\<close>\<close>

text \<open>
  What the browser and the plugins supply: \<^verbatim>\<open>new Date(t).toLocaleDateString()\<close>,
  \<^verbatim>\<open>window.scrollBottom\<close>, the offset the browser settles on when \<^verbatim>\<open>scrollTop(v)\<close> is
  requested, the order in which \<^verbatim>\<open>$.map\<close> enumerates the keys of an object, the
  \<^verbatim>\<open>render\<close> function of a channel added by a plugin, the value jQuery's \<^verbatim>\<open>.data('channel')\<close>
  makes of a \<^verbatim>\<open>data-channel\<close> attribute (the string itself, or a number, a boolean, \<^verbatim>\<open>null\<close>
  or a plain object when the string reads as one), and the number a string converts to
  (\<open>None\<close> when it is no integral number).
\<close>

record 'b browser =
  toLocaleDateString :: "int \<Rightarrow> string"
  scrollBottom :: "pane \<Rightarrow> int"
  clampScrollTop :: "pane \<Rightarrow> int \<Rightarrow> int"
  ownKeys :: "(guid \<rightharpoonup> row) \<Rightarrow> guid list"
  pluginRender :: "string \<Rightarrow> 'b chat \<Rightarrow> (js_error + unit) \<times> 'b chat"
  dataChannel :: "string \<Rightarrow> js_value"
  stringToNumber :: "string \<Rightarrow> int option"









subsection \<open>The display sequence, as the specification words it\<close>





subsection \<open>The tab chooser: \<^verbatim>\<open>chat.chooseTab\<close>\<close>



text \<open>A class or prompt string that is set and not empty.\<close>

definition truthy :: "string option \<Rightarrow> bool" where
  "truthy x = (x \<noteq> None \<and> x \<noteq> Some [])"



text \<open>
  \<^verbatim>\<open>chat.getActive\<close>: jQuery's \<^verbatim>\<open>.data('channel')\<close> of the link with class \<^verbatim>\<open>active\<close>,
  \<^verbatim>\<open>undefined\<close> when there is none.
\<close>

definition getActive :: "'b browser \<Rightarrow> 'b chat \<Rightarrow> js_value" where
  "getActive B s = (case activeTab s of None \<Rightarrow> JSUndefined | Some a \<Rightarrow> dataChannel B a)"

text \<open>
  The rest of \<^verbatim>\<open>chooseTab\<close>, in its three blocks. First: the tab is stored in
  \<^verbatim>\<open>localStorage\<close> and the input class of the old channel is removed. A class name is
  taken to be a single class.
\<close>

definition leaveOldTab :: "'b browser \<Rightarrow> 'b chat \<Rightarrow> string \<Rightarrow> 'b chat" where
  "leaveOldTab B s1 tab1 =
     (let oldTab = getActive B s1;
          s2 = s1\<lparr>storedTab := Some tab1\<rparr>;
          oldChannel = getChannelDesc (channels s2) oldTab
      in (case oldChannel of
            None \<Rightarrow> s2
          | Some oc \<Rightarrow>
              if truthy (inputClass oc)
              then s2\<lparr>inputClasses := inputClasses s2 - {the (inputClass oc)}\<rparr> else s2))"





subsection \<open>Concrete page and chat state\<close>

text \<open>
  Leaflet's \<^verbatim>\<open>LatLngBounds\<close> on exact rationals, for the concrete inputs: \<^verbatim>\<open>pad\<close> widens
  each side by the ratio of the extent, \<^verbatim>\<open>contains\<close> compares the four sides, and
  \<open>round\<close> is \<^verbatim>\<open>Math.round\<close>.
\<close>

record box =
  south :: rat
  west :: rat
  north :: rat
  east :: rat

definition exampleLeaflet :: "box leaflet" where
  "exampleLeaflet =
     \<lparr>pad = (\<lambda>b r. \<lparr>south = south b - \<bar>south b - north b\<bar> * r,
                      west = west b - \<bar>west b - east b\<bar> * r,
                      north = north b + \<bar>south b - north b\<bar> * r,
                      east = east b + \<bar>west b - east b\<bar> * r\<rparr>),
      contains = (\<lambda>b c. south c \<ge> south b \<and> north c \<le> north b \<and> west c \<ge> west b \<and> east c \<le> east b),
      toBBoxString = (\<lambda>b. ''bbox''),
      swLatE6 = (\<lambda>b. round (south b * 1000000)),
      swLngE6 = (\<lambda>b. round (west b * 1000000)),
      neLatE6 = (\<lambda>b. round (north b * 1000000)),
      neLngE6 = (\<lambda>b. round (east b * 1000000))\<rparr>"

definition examplePane :: pane where
  "examplePane = \<lparr>displayed = True, html = ''<table></table>'', needsClearing = False,
     needsScrollTop = None, ignoreNextScroll = False, scrollTop = 0\<rparr>"

definition exampleChat :: "box chat" where
  "exampleChat =
     \<lparr>oldBBox = Some \<lparr>south = 0, west = 0, north = 10, east = 10\<rparr>,
      channels = stockChannels,
      channelStore = [''all'' \<mapsto> tieState, ''faction'' \<mapsto> initialChannelState,
                      ''alerts'' \<mapsto> tieState],
      requestRunning = (\<lambda>k. False),
      panes = (\<lambda>k. examplePane),
      chatVisible = True,
      loading = {},
      activeTab = Some ''faction'',
      storedTab = None,
      inputClasses = {''faction''},
      markText = ''tell faction:'',
      logged = [],
      outbox = [],
      statusRenders = 0,
      refreshTimeouts = []\<rparr>"

definition examplePage :: "box page" where
  "examplePage = \<lparr>leaflet = exampleLeaflet,
     mapBounds = \<lparr>south = 0, west = 0, north = 10, east = 10\<rparr>, isIdle = False\<rparr>"

definition exampleRequest :: "bool \<Rightarrow> request" where
  "exampleRequest isRetry =
     \<lparr>postData = \<lparr>minLatE6 = 0, minLngE6 = 0, maxLatE6 = 10000000, maxLngE6 = 10000000,
                  minTimestampMs = 100, maxTimestampMs = - 1, tab = ''all'',
                  plextContinuationGuid = Some ''g2'', ascendingTimestampOrder = Some True\<rparr>,
      req_channel = JSString ''all'', req_getOlderMsgs = False, req_isRetry = isRetry\<rparr>"


text \<open>The chat state after a first, successful call for the channel \<open>all\<close>.\<close>

definition exampleIssued :: "box chat" where
  "exampleIssued = snd (requestChannel examplePage exampleChat (JSString ''all'') False False)"




text \<open>
  A heap that holds one markup array, \<^verbatim>\<open>Agent bob destroyed the <Enlightened> Link <portal>\<close>.
\<close>

definition exampleHeap :: heap where
  "exampleHeap =
     \<lparr>arrays = [[0, 1, 2, 3, 4, 5]],
      entities = [(''TEXT'', 0), (''PLAYER'', 1), (''TEXT'', 2), (''FACTION'', 3), (''TEXT'', 4),
                  (''PORTAL'', 5)],
      objects =
        [\<lparr>plain = ''Agent '', team = None, others = []\<rparr>,
         \<lparr>plain = ''bob'', team = Some ''RESISTANCE'', others = []\<rparr>,
         \<lparr>plain = '' destroyed the '', team = None, others = []\<rparr>,
         \<lparr>plain = ''Enlightened'', team = Some ''ENLIGHTENED'', others = []\<rparr>,
         \<lparr>plain = '' Link '', team = None, others = []\<rparr>,
         \<lparr>plain = ''Gate (Main St)'', team = Some ''ENLIGHTENED'',
          others = [(''name'', PStr ''Gate''), (''latE6'', PNum 1000000)]\<rparr>]\<rparr>"

text \<open>The ids of the viewport-scoped channels.\<close>

definition localIds :: "channel_desc list \<Rightarrow> string set" where
  "localIds es = id' ` {e \<in> set es. localBounds e}"


section \<open>Theorems\<close>

lemmas merge_eval =
  merges_def writeDataToHash_def updateOldNewHash_def updateOldest_def updateNewest_def
  writeOne_def js_in_def Object_prototype_properties_def parseMsgData_def exampleRaw_def
  exampleEnv_def initialChannelState_def Let_def

subsection \<open>The merge\<close>

lemma writeOne_marks:
  "oldestTimestamp (writeOne env a s j) = oldestTimestamp s"
  "oldestGUID (writeOne env a s j) = oldestGUID s"
  "newestTimestamp (writeOne env a s j) = newestTimestamp s"
  "newestGUID (writeOne env a s j) = newestGUID s"
  by (simp_all add: writeOne_def Let_def)

lemma foldl_writeOne_marks:
  "oldestTimestamp (foldl (writeOne env a) s b) = oldestTimestamp s \<and>
   oldestGUID (foldl (writeOne env a) s b) = oldestGUID s \<and>
   newestTimestamp (foldl (writeOne env a) s b) = newestTimestamp s \<and>
   newestGUID (foldl (writeOne env a) s b) = newestGUID s"
  by (induction b arbitrary: s) (simp_all add: writeOne_marks)

lemma updateOldest_simps:
  "data (updateOldest l ol s) = data s" "guids (updateOldest l ol s) = guids s"
  "newestTimestamp (updateOldest l ol s) = newestTimestamp s"
  "newestGUID (updateOldest l ol s) = newestGUID s"
  by (simp_all add: updateOldest_def)

lemma updateNewest_simps:
  "data (updateNewest f ol s) = data s" "guids (updateNewest f ol s) = guids s"
  "oldestTimestamp (updateNewest f ol s) = oldestTimestamp s"
  "oldestGUID (updateNewest f ol s) = oldestGUID s"
  by (simp_all add: updateNewest_def)

lemma updateOldNewHash_store:
  "data (updateOldNewHash b s ol a) = data s" "guids (updateOldNewHash b s ol a) = guids s"
  by (simp_all add: updateOldNewHash_def Let_def updateOldest_simps updateNewest_simps)




lemma m_guid_parse: "m_guid (parseMsgData f j) = r_guid j"
  by (simp add: parseMsgData_def Let_def)














subsection \<open>Order integrity\<close>

lemma js_in_dom: "\<not> js_in g m \<Longrightarrow> g \<notin> dom m"
  by (auto simp add: js_in_def)

lemma writeOne_orderIntegrity: "orderIntegrity s \<Longrightarrow> orderIntegrity (writeOne env a s j)"
  by (auto simp add: orderIntegrity_def writeOne_def Let_def m_guid_parse dest: js_in_dom)

lemma foldl_writeOne_orderIntegrity:
  "orderIntegrity s \<Longrightarrow> orderIntegrity (foldl (writeOne env a) s b)"
  by (induction b arbitrary: s) (simp_all add: writeOne_orderIntegrity)

lemma writeDataToHash_orderIntegrity:
  "orderIntegrity s \<Longrightarrow> orderIntegrity (writeDataToHash env b s ol a)"
  unfolding writeDataToHash_def
  by (rule foldl_writeOne_orderIntegrity) (simp add: orderIntegrity_def updateOldNewHash_store)

lemma merges_orderIntegrity: "orderIntegrity s \<Longrightarrow> orderIntegrity (merges env s calls)"
  unfolding merges_def
  by (induction calls arbitrary: s) (simp_all add: writeDataToHash_orderIntegrity)


text \<open>
  C3. In every state reached from the initial state by merges, whatever their batches
  and flags, the order list holds exactly the keys of the messages map, and no GUID
  twice.
\<close>

theorem merges_order_integrity:
  "set (guids (merges env initialChannelState calls)) =
     dom (data (merges env initialChannelState calls)) \<and>
   distinct (guids (merges env initialChannelState calls))"
proof -
  have "orderIntegrity initialChannelState"
    by (simp add: orderIntegrity_def initialChannelState_def)
  then have "orderIntegrity (merges env initialChannelState calls)"
    by (rule merges_orderIntegrity)
  then show ?thesis by (simp add: orderIntegrity_def)
qed

text \<open>
  Three merges with mixed flags, the second repeating a GUID of the first and the third
  carrying an inherited property name as GUID: the order list is \<open>g0, g1, g2\<close>.
\<close>

theorem merges_order_integrity_witness:
  "guids (merges exampleEnv initialChannelState
     [\<lparr>batch = [exampleRaw ''g1'' 100, exampleRaw ''g2'' 200], isOlderMsgs = False,
        isAscendingOrder = True\<rparr>,
      \<lparr>batch = [exampleRaw ''g1'' 100, exampleRaw ''g0'' 50], isOlderMsgs = True,
        isAscendingOrder = False\<rparr>,
      \<lparr>batch = [exampleRaw ''toString'' 300], isOlderMsgs = False,
        isAscendingOrder = True\<rparr>]) = [''g0'', ''g1'', ''g2''] \<and>
   dom (data (merges exampleEnv initialChannelState
     [\<lparr>batch = [exampleRaw ''g1'' 100, exampleRaw ''g2'' 200], isOlderMsgs = False,
        isAscendingOrder = True\<rparr>,
      \<lparr>batch = [exampleRaw ''g1'' 100, exampleRaw ''g0'' 50], isOlderMsgs = True,
        isAscendingOrder = False\<rparr>,
      \<lparr>batch = [exampleRaw ''toString'' 300], isOlderMsgs = False,
        isAscendingOrder = True\<rparr>])) = {''g0'', ''g1'', ''g2''}"
proof -
  let ?calls = "[\<lparr>batch = [exampleRaw ''g1'' 100, exampleRaw ''g2'' 200], isOlderMsgs = False,
        isAscendingOrder = True\<rparr>,
      \<lparr>batch = [exampleRaw ''g1'' 100, exampleRaw ''g0'' 50], isOlderMsgs = True,
        isAscendingOrder = False\<rparr>,
      \<lparr>batch = [exampleRaw ''toString'' 300], isOlderMsgs = False,
        isAscendingOrder = True\<rparr>]"
  have g: "guids (merges exampleEnv initialChannelState ?calls) = [''g0'', ''g1'', ''g2'']"
    by (simp add: merge_eval)
  from merges_order_integrity [of exampleEnv ?calls]
  have "dom (data (merges exampleEnv initialChannelState ?calls)) =
      set (guids (merges exampleEnv initialChannelState ?calls))"
    by simp
  with g show ?thesis by auto
qed

subsection \<open>Watermarks\<close>

lemma updateOldest_bound:
  assumes "snd l \<noteq> - 1"
  shows "oldestTimestamp (updateOldest l ol s) \<noteq> - 1"
    and "oldestTimestamp (updateOldest l ol s) \<le> snd l"
    and "oldestTimestamp s \<noteq> - 1 \<Longrightarrow> oldestTimestamp (updateOldest l ol s) \<le> oldestTimestamp s"
  using assms by (auto simp add: updateOldest_def)

lemma updateNewest_bound:
  assumes "snd f \<noteq> - 1"
  shows "newestTimestamp (updateNewest f ol s) \<noteq> - 1"
    and "snd f \<le> newestTimestamp (updateNewest f ol s)"
    and "newestTimestamp s \<noteq> - 1 \<Longrightarrow> newestTimestamp s \<le> newestTimestamp (updateNewest f ol s)"
  using assms by (auto simp add: updateNewest_def)

lemma m_time_parse: "m_time (parseMsgData f j) = r_time j"
  by (simp add: parseMsgData_def Let_def)

lemma writeOne_data:
  assumes "data (writeOne env a s x) g = Some r"
  shows "data s g = Some r \<or> row_time r = r_time x"
proof (cases "js_in (r_guid x) (data s)")
  case True
  with assms show ?thesis by (simp add: writeOne_def)
next
  case False
  then have "data (writeOne env a s x) =
      (data s)(r_guid x \<mapsto> \<lparr>row_time = r_time x,
         row_auto = m_auto (parseMsgData (teamStringToId env) x),
         row_html = renderMsgRow env (parseMsgData (teamStringToId env) x),
         row_nick = p_name (m_player (parseMsgData (teamStringToId env) x)),
         row_parsed = parseMsgData (teamStringToId env) x\<rparr>)"
    by (simp add: writeOne_def Let_def m_guid_parse m_time_parse)
  with assms show ?thesis
    by (cases "g = r_guid x") auto
qed

lemma foldl_writeOne_data:
  "data (foldl (writeOne env a) s b) g = Some r \<Longrightarrow>
     data s g = Some r \<or> (\<exists>j\<in>set b. row_time r = r_time j)"
proof (induction b arbitrary: s)
  case Nil
  then show ?case by simp
next
  case (Cons x xs)
  from Cons.prems have "data (foldl (writeOne env a) (writeOne env a s x) xs) g = Some r"
    by simp
  from Cons.IH [OF this] show ?case
  proof
    assume "data (writeOne env a s x) g = Some r"
    then have "data s g = Some r \<or> row_time r = r_time x"
      by (rule writeOne_data)
    then show ?thesis by auto
  next
    assume "\<exists>j\<in>set xs. row_time r = r_time j"
    then show ?thesis by auto
  qed
qed

lemma sorted_ends:
  fixes xs :: "int list"
  assumes "sorted xs" and "x \<in> set xs"
  shows "xs ! 0 \<le> x" and "x \<le> xs ! (length xs - 1)"
proof -
  from assms(2) obtain i where i: "i < length xs" "x = xs ! i"
    by (auto simp add: in_set_conv_nth)
  show "xs ! 0 \<le> x"
    unfolding i(2) using assms(1) i(1) by (intro sorted_nth_mono) simp_all
  show "x \<le> xs ! (length xs - 1)"
    unfolding i(2) using assms(1) i(1) by (intro sorted_nth_mono) simp_all
qed

lemma ascending_bounds:
  assumes "sorted (map r_time b)" and "j \<in> set b"
  shows "r_time (b ! 0) \<le> r_time j" and "r_time j \<le> r_time (b ! (length b - 1))"
proof -
  from assms(2) have ne: "0 < length b" by (cases b) simp_all
  have x: "r_time j \<in> set (map r_time b)" using assms(2) by simp
  from sorted_ends(1) [OF assms(1) x] ne show "r_time (b ! 0) \<le> r_time j"
    by simp
  from sorted_ends(2) [OF assms(1) x] ne show "r_time j \<le> r_time (b ! (length b - 1))"
    by simp
qed

lemma descending_bounds:
  assumes "sorted (rev (map r_time b))" and "j \<in> set b"
  shows "r_time (b ! (length b - 1)) \<le> r_time j" and "r_time j \<le> r_time (b ! 0)"
proof -
  from assms(2) have ne: "0 < length b" by (cases b) simp_all
  have x: "r_time j \<in> set (rev (map r_time b))" using assms(2) by simp
  from sorted_ends(1) [OF assms(1) x] ne show "r_time (b ! (length b - 1)) \<le> r_time j"
    by (simp add: rev_nth)
  from sorted_ends(2) [OF assms(1) x] ne show "r_time j \<le> r_time (b ! 0)"
    by (simp add: rev_nth)
qed

lemma writeDataToHash_watermarksInv:
  assumes inv: "watermarksInv s"
    and ord: "batchOrdered c"
    and ne: "\<forall>j\<in>set (batch c). r_time j \<noteq> - 1"
  shows "watermarksInv (writeDataToHash env (batch c) s (isOlderMsgs c) (isAscendingOrder c))"
proof (cases "batch c = []")
  case True
  then show ?thesis using inv by (simp add: writeDataToHash_def updateOldNewHash_def)
next
  case False
  let ?b = "batch c" and ?a = "isAscendingOrder c" and ?ol = "isOlderMsgs c"
  define l where "l = (if ?a then (r_guid (?b ! 0), r_time (?b ! 0))
     else (r_guid (?b ! (length ?b - 1)), r_time (?b ! (length ?b - 1))))"
  define f where "f = (if ?a then (r_guid (?b ! (length ?b - 1)), r_time (?b ! (length ?b - 1)))
     else (r_guid (?b ! 0), r_time (?b ! 0)))"
  define u where "u = updateNewest f ?ol (updateOldest l ?ol s)"
  define t where "t = writeDataToHash env ?b s ?ol ?a"
  have t: "t = foldl (writeOne env ?a) u ?b"
    using False by (simp add: t_def u_def writeDataToHash_def updateOldNewHash_def Let_def l_def f_def)
  have in0: "?b ! 0 \<in> set ?b" and inl: "?b ! (length ?b - 1) \<in> set ?b"
    using False by simp_all
  have l1: "snd l \<noteq> - 1" and f1: "snd f \<noteq> - 1"
    using ne in0 inl by (simp_all add: l_def f_def)
  have bounds: "\<And>j. j \<in> set ?b \<Longrightarrow> snd l \<le> r_time j \<and> r_time j \<le> snd f"
    using ord ascending_bounds [of ?b] descending_bounds [of ?b]
    by (simp add: batchOrdered_def l_def f_def split: if_splits)
  let ?s' = "updateOldest l ?ol s"
  have uo: "oldestTimestamp u = oldestTimestamp ?s'" and ud: "data u = data s"
    by (simp_all add: u_def updateNewest_simps updateOldest_simps)
  have to: "oldestTimestamp t = oldestTimestamp ?s'" and tn: "newestTimestamp t = newestTimestamp u"
    by (simp_all add: t foldl_writeOne_marks uo)
  have o1: "oldestTimestamp t \<noteq> - 1" and o2: "oldestTimestamp t \<le> snd l"
    using updateOldest_bound(1,2) [OF l1, of ?ol s] by (simp_all add: to)
  have n1: "newestTimestamp t \<noteq> - 1" and n2: "snd f \<le> newestTimestamp t"
    using updateNewest_bound(1,2) [OF f1, of ?ol ?s'] by (simp_all add: tn u_def)
  have o3: "oldestTimestamp s \<noteq> - 1 \<Longrightarrow> oldestTimestamp t \<le> oldestTimestamp s"
    using updateOldest_bound(3) [OF l1, of s ?ol] by (simp add: to)
  have n3: "newestTimestamp s \<noteq> - 1 \<Longrightarrow> newestTimestamp s \<le> newestTimestamp t"
    using updateNewest_bound(3) [OF f1, of ?s' ?ol] by (simp add: tn u_def updateOldest_simps)
  have "watermarksCover t"
    unfolding watermarksCover_def
  proof (intro allI impI)
    fix g r
    assume "data t g = Some r"
    then have "data s g = Some r \<or> (\<exists>j\<in>set ?b. row_time r = r_time j)"
      using foldl_writeOne_data [of env ?a u ?b g r] by (simp add: t ud)
    then show "oldestTimestamp t \<le> row_time r \<and> row_time r \<le> newestTimestamp t"
    proof
      assume old: "data s g = Some r"
      with inv have c: "oldestTimestamp s \<noteq> - 1" "newestTimestamp s \<noteq> - 1"
        "oldestTimestamp s \<le> row_time r" "row_time r \<le> newestTimestamp s"
        by (auto simp add: watermarksInv_def watermarksCover_def)
      from o3 [OF c(1)] n3 [OF c(2)] c(3,4)
      show ?thesis by simp
    next
      assume "\<exists>j\<in>set ?b. row_time r = r_time j"
      then obtain j where "j \<in> set ?b" "row_time r = r_time j" by blast
      with bounds [of j] o2 n2 show ?thesis by simp
    qed
  qed
  with o1 n1 show ?thesis by (simp add: watermarksInv_def t_def)
qed

lemma merges_watermarksInv:
  "watermarksInv s \<Longrightarrow> \<forall>c\<in>set calls. batchOrdered c \<and> (\<forall>j\<in>set (batch c). r_time j \<noteq> - 1) \<Longrightarrow>
     watermarksInv (merges env s calls)"
  unfolding merges_def
  by (induction calls arbitrary: s) (simp_all add: writeDataToHash_watermarksInv)


text \<open>
  C2 (amended). Start from the initial state and merge any sequence of batches, each
  ordered by timestamp in the direction its \<open>isAscendingOrder\<close> flag states and none
  holding the sentinel timestamp \<open>-1\<close>. Then every stored row has a timestamp between
  \<open>oldestTimestamp\<close> and \<open>newestTimestamp\<close>, whatever the \<open>isOlderMsgs\<close> flags were.
\<close>

theorem merges_watermarks:
  assumes "\<forall>c\<in>set calls. batchOrdered c \<and> (\<forall>j\<in>set (batch c). r_time j \<noteq> - 1)"
    and "data (merges env initialChannelState calls) g = Some r"
  shows "oldestTimestamp (merges env initialChannelState calls) \<le> row_time r \<and>
         row_time r \<le> newestTimestamp (merges env initialChannelState calls)"
proof -
  have "watermarksInv initialChannelState"
    by (simp add: watermarksInv_def initialChannelState_def)
  then have "watermarksInv (merges env initialChannelState calls)"
    using assms(1) by (rule merges_watermarksInv)
  with assms(2) show ?thesis
    by (auto simp add: watermarksInv_def watermarksCover_def)
qed

text \<open>
  A forward batch of two messages, then an older batch of one: the watermarks are 50
  and 200, and the row of \<open>g1\<close> (timestamp 100) lies between them.
\<close>

theorem merges_watermarks_witness:
  "oldestTimestamp (merges exampleEnv initialChannelState
     [\<lparr>batch = [exampleRaw ''g1'' 100, exampleRaw ''g2'' 200], isOlderMsgs = False,
        isAscendingOrder = True\<rparr>,
      \<lparr>batch = [exampleRaw ''g0'' 50], isOlderMsgs = True, isAscendingOrder = False\<rparr>]) = 50 \<and>
   newestTimestamp (merges exampleEnv initialChannelState
     [\<lparr>batch = [exampleRaw ''g1'' 100, exampleRaw ''g2'' 200], isOlderMsgs = False,
        isAscendingOrder = True\<rparr>,
      \<lparr>batch = [exampleRaw ''g0'' 50], isOlderMsgs = True, isAscendingOrder = False\<rparr>]) = 200 \<and>
   (50::int) \<le> row_time (the (data (merges exampleEnv initialChannelState
     [\<lparr>batch = [exampleRaw ''g1'' 100, exampleRaw ''g2'' 200], isOlderMsgs = False,
        isAscendingOrder = True\<rparr>,
      \<lparr>batch = [exampleRaw ''g0'' 50], isOlderMsgs = True, isAscendingOrder = False\<rparr>]) ''g1'')) \<and>
   row_time (the (data (merges exampleEnv initialChannelState
     [\<lparr>batch = [exampleRaw ''g1'' 100, exampleRaw ''g2'' 200], isOlderMsgs = False,
        isAscendingOrder = True\<rparr>,
      \<lparr>batch = [exampleRaw ''g0'' 50], isOlderMsgs = True, isAscendingOrder = False\<rparr>]) ''g1'')) \<le> (200::int)"
proof -
  let ?calls = "[\<lparr>batch = [exampleRaw ''g1'' 100, exampleRaw ''g2'' 200], isOlderMsgs = False,
        isAscendingOrder = True\<rparr>,
      \<lparr>batch = [exampleRaw ''g0'' 50], isOlderMsgs = True, isAscendingOrder = False\<rparr>]"
  let ?s = "merges exampleEnv initialChannelState ?calls"
  have h1: "\<forall>c\<in>set ?calls. batchOrdered c \<and> (\<forall>j\<in>set (batch c). r_time j \<noteq> - 1)"
    by (simp add: batchOrdered_def exampleRaw_def)
  have "data ?s ''g1'' \<noteq> None"
    by (simp add: merge_eval)
  then have h2: "data ?s ''g1'' = Some (the (data ?s ''g1''))"
    by simp
  have o: "oldestTimestamp ?s = 50" and n: "newestTimestamp ?s = 200"
    by (simp_all add: merge_eval)
  from merges_watermarks [OF h1 h2] o n show ?thesis by simp
qed

text \<open>
  C2 as stated fails when a flag does not match the batch: an ascending batch merged
  with \<open>isAscendingOrder\<close> unset sets the oldest watermark to 200 and the newest to
  100, while the row of \<open>g1\<close> has timestamp 100. It also fails on the sentinel: after a
  message with timestamp \<open>-1\<close> the oldest watermark still reads as unset, and the next
  batch raises it to 5, above the stored \<open>-1\<close>.
\<close>

theorem merges_watermarks_counterexample:
  "(\<exists>r. data (merges exampleEnv initialChannelState
          [\<lparr>batch = [exampleRaw ''g1'' 100, exampleRaw ''g2'' 200], isOlderMsgs = False,
             isAscendingOrder = False\<rparr>]) ''g1'' = Some r \<and>
        row_time r = 100 \<and>
        oldestTimestamp (merges exampleEnv initialChannelState
          [\<lparr>batch = [exampleRaw ''g1'' 100, exampleRaw ''g2'' 200], isOlderMsgs = False,
             isAscendingOrder = False\<rparr>]) = 200 \<and>
        \<not> oldestTimestamp (merges exampleEnv initialChannelState
          [\<lparr>batch = [exampleRaw ''g1'' 100, exampleRaw ''g2'' 200], isOlderMsgs = False,
             isAscendingOrder = False\<rparr>]) \<le> row_time r) \<and>
   (\<exists>r. data (merges exampleEnv initialChannelState
          [\<lparr>batch = [exampleRaw ''x'' (- 1)], isOlderMsgs = False, isAscendingOrder = True\<rparr>,
           \<lparr>batch = [exampleRaw ''y'' 5], isOlderMsgs = False, isAscendingOrder = True\<rparr>])
          ''x'' = Some r \<and>
        row_time r = - 1 \<and>
        oldestTimestamp (merges exampleEnv initialChannelState
          [\<lparr>batch = [exampleRaw ''x'' (- 1)], isOlderMsgs = False, isAscendingOrder = True\<rparr>,
           \<lparr>batch = [exampleRaw ''y'' 5], isOlderMsgs = False, isAscendingOrder = True\<rparr>]) = 5)"
  by (simp add: merge_eval)

subsection \<open>The request builder\<close>

lemmas chat_eval =
  clearOnBBoxChange_def sameBBox_def CHAT_BOUNDINGBOX_SAME_FACTOR_def exampleLeaflet_def
  examplePage_def exampleChat_def examplePane_def stockChannels_def resetIfLocal_def
  initChannelData_def Let_def

lemma genPostData_string:
  "genPostData L b s (JSString c) older =
     (let s2 = clearOnBBoxChange L b s;
          d = \<lparr>minLatE6 = swLatE6 L b, minLngE6 = swLngE6 L b, maxLatE6 = neLatE6 L b,
               maxLngE6 = neLngE6 L b, minTimestampMs = - 1, maxTimestampMs = - 1, tab = c,
               plextContinuationGuid = None, ascendingTimestampOrder = None\<rparr>
      in (case channelStore s2 c of
            None \<Rightarrow>
              if c \<in> set Object_prototype_properties then (Inr d, s2)
              else (Inl (TypeError ''storageHash is undefined''), s2)
          | Some storageHash \<Rightarrow>
              if older then
                (Inr (d\<lparr>maxTimestampMs := oldestTimestamp storageHash,
                         plextContinuationGuid := oldestGUID storageHash\<rparr>), s2)
              else
                let min' = newestTimestamp storageHash;
                    d1 = d\<lparr>minTimestampMs := min',
                           plextContinuationGuid := newestGUID storageHash\<rparr>
                in (Inr (if min' > - 1 then d1\<lparr>ascendingTimestampOrder := Some True\<rparr> else d1),
                    s2)))"
  by (simp add: genPostData_def)

lemma genPostData_state: "snd (genPostData L b s (JSString c) older) = clearOnBBoxChange L b s"
  by (simp add: genPostData_string Let_def split: option.split)


text \<open>
  C9. For every channel argument that is not a string, \<^verbatim>\<open>genPostData\<close> throws the
  \<^verbatim>\<open>Error\<close> and the state is the one before the call: no request parameter was computed
  and no channel state touched.
\<close>

theorem genPostData_non_string: "(\<forall>c. channel \<noteq> JSString c) \<Longrightarrow>
   genPostData L b s channel older =
     (Inl (Error ''API changed: isFaction flag now a channel string - all, faction, alerts''), s)"
  by (cases channel) (simp_all add: genPostData_def)


theorem genPostData_non_string_witness:
  "genPostData exampleLeaflet (mapBounds examplePage) exampleChat (JSBoolean True) False =
     (Inl (Error ''API changed: isFaction flag now a channel string - all, faction, alerts''),
      exampleChat)"
proof -
  have "\<forall>c. JSBoolean True \<noteq> JSString c" by simp
  then show ?thesis by (rule genPostData_non_string)
qed





lemma resetIfLocal_frame:
  "oldBBox (resetIfLocal s e) = oldBBox s" "channels (resetIfLocal s e) = channels s"
  "logged (resetIfLocal s e) = logged s" "outbox (resetIfLocal s e) = outbox s"
  "requestRunning (resetIfLocal s e) = requestRunning s"
  "statusRenders (resetIfLocal s e) = statusRenders s"
  "loading (resetIfLocal s e) = loading s"
  by (simp_all add: resetIfLocal_def initChannelData_def Let_def)

lemma resetIfLocal_store:
  "channelStore (resetIfLocal s e) k =
     (if localBounds e \<and> k = id' e then Some initialChannelState else channelStore s k)"
  by (simp add: resetIfLocal_def initChannelData_def Let_def)

lemma resetIfLocal_panes:
  "panes (resetIfLocal s e) k =
     (if localBounds e \<and> k = id' e then (panes s k)\<lparr>needsClearing := True\<rparr> else panes s k)"
  by (simp add: resetIfLocal_def initChannelData_def Let_def)

lemma foldl_resetIfLocal_frame:
  "oldBBox (foldl resetIfLocal s es) = oldBBox s \<and> channels (foldl resetIfLocal s es) = channels s \<and>
   logged (foldl resetIfLocal s es) = logged s \<and> outbox (foldl resetIfLocal s es) = outbox s \<and>
   requestRunning (foldl resetIfLocal s es) = requestRunning s \<and>
   statusRenders (foldl resetIfLocal s es) = statusRenders s \<and>
   loading (foldl resetIfLocal s es) = loading s"
  by (induction es arbitrary: s) (simp_all add: resetIfLocal_frame)

lemma foldl_resetIfLocal_store:
  "channelStore (foldl resetIfLocal s es) k =
     (if k \<in> localIds es then Some initialChannelState else channelStore s k)"
proof (induction es arbitrary: s)
  case Nil
  then show ?case by (simp add: localIds_def)
next
  case (Cons e es)
  have "localIds (e # es) = (if localBounds e then insert (id' e) (localIds es) else localIds es)"
    by (auto simp add: localIds_def)
  then show ?case by (simp add: Cons.IH resetIfLocal_store)
qed

lemma foldl_resetIfLocal_panes:
  "panes (foldl resetIfLocal s es) k =
     (if k \<in> localIds es then (panes s k)\<lparr>needsClearing := True\<rparr> else panes s k)"
proof (induction es arbitrary: s)
  case Nil
  then show ?case by (simp add: localIds_def)
next
  case (Cons e es)
  have "localIds (e # es) = (if localBounds e then insert (id' e) (localIds es) else localIds es)"
    by (auto simp add: localIds_def)
  then show ?case by (simp add: Cons.IH resetIfLocal_panes)
qed

lemma clearOnBBoxChange_same:
  assumes "sameBBox L b (case oldBBox s of None \<Rightarrow> b | Some b0 \<Rightarrow> b0)"
  shows "clearOnBBoxChange L b s = s\<lparr>oldBBox := Some (case oldBBox s of None \<Rightarrow> b | Some b0 \<Rightarrow> b0)\<rparr>"
  using assms by (simp add: clearOnBBoxChange_def Let_def)

lemma clearOnBBoxChange_changed:
  assumes "\<not> sameBBox L b (case oldBBox s of None \<Rightarrow> b | Some b0 \<Rightarrow> b0)"
  shows "oldBBox (clearOnBBoxChange L b s) = Some b"
    and "channelStore (clearOnBBoxChange L b s) k =
       (if k \<in> localIds (channels s) then Some initialChannelState else channelStore s k)"
    and "panes (clearOnBBoxChange L b s) k =
       (if k \<in> localIds (channels s) then (panes s k)\<lparr>needsClearing := True\<rparr> else panes s k)"
    and "logged (clearOnBBoxChange L b s) = logged s @
       [LogLog (''Bounding Box changed, chat will be cleared (old: '' @
          toBBoxString L (case oldBBox s of None \<Rightarrow> b | Some b0 \<Rightarrow> b0) @ ''; new: '' @
          toBBoxString L b @ '')'')]"
  using assms
  by (simp_all add: clearOnBBoxChange_def Let_def foldl_resetIfLocal_store
      foldl_resetIfLocal_panes foldl_resetIfLocal_frame)

text \<open>
  C5. Let \<open>old\<close> be the last-synced box (the current box \<open>b\<close> if none was stored). If each
  of \<open>b\<close> and \<open>old\<close>, padded by one tenth, contains the other, no channel object and no
  element is touched and nothing is logged. Otherwise every channel with \<open>localBounds\<close>
  has its object reset (no messages, an empty order list, both timestamps \<open>-1\<close>, no
  watermark GUID) and \<open>needsClearing\<close> set on its element, the other channels keep object
  and element, one line is logged, and the stored box is \<open>b\<close>.
\<close>

theorem genPostData_viewport:
  assumes "genPostData L b s (JSString c) older = (r, s')"
    and "old = (case oldBBox s of None \<Rightarrow> b | Some b0 \<Rightarrow> b0)"
  shows "(contains L (pad L b (1 / 10)) old \<and> contains L (pad L old (1 / 10)) b \<longrightarrow>
            channelStore s' = channelStore s \<and> panes s' = panes s \<and> logged s' = logged s \<and>
            oldBBox s' = Some old) \<and>
         (\<not> (contains L (pad L b (1 / 10)) old \<and> contains L (pad L old (1 / 10)) b) \<longrightarrow>
            oldBBox s' = Some b \<and>
            (\<forall>e\<in>set (channels s). localBounds e \<longrightarrow>
               channelStore s' (id' e) =
                 Some \<lparr>data = Map.empty, guids = [], oldestTimestamp = - 1, oldestGUID = None,
                       newestTimestamp = - 1, newestGUID = None\<rparr> \<and>
               panes s' (id' e) = (panes s (id' e))\<lparr>needsClearing := True\<rparr>) \<and>
            (\<forall>k. (\<forall>e\<in>set (channels s). localBounds e \<longrightarrow> id' e \<noteq> k) \<longrightarrow>
               channelStore s' k = channelStore s k \<and> panes s' k = panes s k) \<and>
            length (logged s') = Suc (length (logged s)))"
proof -
  from assms(1) have s': "s' = clearOnBBoxChange L b s"
    using genPostData_state [of L b s c older] by simp
  have same: "sameBBox L b old =
      (contains L (pad L b (1 / 10)) old \<and> contains L (pad L old (1 / 10)) b)"
    by (simp add: sameBBox_def CHAT_BOUNDINGBOX_SAME_FACTOR_def)
  show ?thesis
  proof (cases "sameBBox L b old")
    case True
    then have "s' = s\<lparr>oldBBox := Some old\<rparr>"
      unfolding s' assms(2) by (rule clearOnBBoxChange_same)
    with True show ?thesis by (simp add: same)
  next
    case False
    then have f: "\<not> sameBBox L b (case oldBBox s of None \<Rightarrow> b | Some b0 \<Rightarrow> b0)"
      by (simp add: assms(2))
    have in_local: "\<And>e. e \<in> set (channels s) \<Longrightarrow> localBounds e \<Longrightarrow> id' e \<in> localIds (channels s)"
      by (auto simp add: localIds_def)
    have not_local: "\<And>k. (\<forall>e\<in>set (channels s). localBounds e \<longrightarrow> id' e \<noteq> k) \<Longrightarrow> k \<notin> localIds (channels s)"
      by (auto simp add: localIds_def)
    from False show ?thesis
      unfolding s' using in_local not_local
      by (simp add: same [symmetric] clearOnBBoxChange_changed [OF f] initialChannelState_def)
  qed
qed



text \<open>
  A box far from the stored one resets \<open>all\<close> and leaves \<open>alerts\<close>; a box shifted by half
  a degree, within the padding of one degree, leaves every channel.
\<close>

theorem genPostData_viewport_witness:
  "oldBBox (snd (genPostData exampleLeaflet \<lparr>south = 50, west = 50, north = 60, east = 60\<rparr>
      exampleChat (JSString ''alerts'') False)) = Some \<lparr>south = 50, west = 50, north = 60, east = 60\<rparr> \<and>
   channelStore (snd (genPostData exampleLeaflet \<lparr>south = 50, west = 50, north = 60, east = 60\<rparr>
      exampleChat (JSString ''alerts'') False)) ''all'' =
     Some \<lparr>data = Map.empty, guids = [], oldestTimestamp = - 1, oldestGUID = None,
           newestTimestamp = - 1, newestGUID = None\<rparr> \<and>
   needsClearing (panes (snd (genPostData exampleLeaflet \<lparr>south = 50, west = 50, north = 60, east = 60\<rparr>
      exampleChat (JSString ''alerts'') False)) ''all'') \<and>
   channelStore (snd (genPostData exampleLeaflet \<lparr>south = 50, west = 50, north = 60, east = 60\<rparr>
      exampleChat (JSString ''alerts'') False)) ''alerts'' = Some tieState \<and>
   channelStore (snd (genPostData exampleLeaflet \<lparr>south = 1 / 2, west = 0, north = 21 / 2, east = 10\<rparr>
      exampleChat (JSString ''alerts'') False)) = channelStore exampleChat"
proof -
  let ?old = "\<lparr>south = 0, west = 0, north = 10, east = 10\<rparr> :: box"
  let ?far = "\<lparr>south = 50, west = 50, north = 60, east = 60\<rparr> :: box"
  let ?near = "\<lparr>south = 1 / 2, west = 0, north = 21 / 2, east = 10\<rparr> :: box"
  let ?f = "genPostData exampleLeaflet ?far exampleChat (JSString ''alerts'') False"
  let ?init = "\<lparr>data = Map.empty, guids = [], oldestTimestamp = - 1, oldestGUID = None,
      newestTimestamp = - 1, newestGUID = None\<rparr> :: channel_state"
  let ?n = "genPostData exampleLeaflet ?near exampleChat (JSString ''alerts'') False"
  have old: "?old = (case oldBBox exampleChat of None \<Rightarrow> ?far | Some b0 \<Rightarrow> b0)"
    "?old = (case oldBBox exampleChat of None \<Rightarrow> ?near | Some b0 \<Rightarrow> b0)"
    by (simp_all add: exampleChat_def)
  have far: "\<not> (contains exampleLeaflet (pad exampleLeaflet ?far (1 / 10)) ?old \<and>
      contains exampleLeaflet (pad exampleLeaflet ?old (1 / 10)) ?far)"
    by (simp add: exampleLeaflet_def)
  have near: "contains exampleLeaflet (pad exampleLeaflet ?near (1 / 10)) ?old \<and>
      contains exampleLeaflet (pad exampleLeaflet ?old (1 / 10)) ?near"
    by (simp add: exampleLeaflet_def)
  have ch: "hd (channels exampleChat) \<in> set (channels exampleChat)"
    "localBounds (hd (channels exampleChat))" "id' (hd (channels exampleChat)) = ''all''"
    "\<forall>e\<in>set (channels exampleChat). localBounds e \<longrightarrow> id' e \<noteq> ''alerts''"
    "channelStore exampleChat ''alerts'' = Some tieState"
    by (simp_all add: exampleChat_def stockChannels_def)
  have pf: "?f = (fst ?f, snd ?f)" and pn: "?n = (fst ?n, snd ?n)" by simp_all
  from genPostData_viewport [OF pf old(1)] far
  have c: "oldBBox (snd ?f) = Some ?far"
    and l: "\<forall>e\<in>set (channels exampleChat). localBounds e \<longrightarrow>
       channelStore (snd ?f) (id' e) = Some ?init \<and>
       panes (snd ?f) (id' e) = (panes exampleChat (id' e))\<lparr>needsClearing := True\<rparr>"
    and k: "\<forall>k. (\<forall>e\<in>set (channels exampleChat). localBounds e \<longrightarrow> id' e \<noteq> k) \<longrightarrow>
       channelStore (snd ?f) k = channelStore exampleChat k \<and> panes (snd ?f) k = panes exampleChat k"
    by blast+
  from l ch(1,2) have "channelStore (snd ?f) (id' (hd (channels exampleChat))) = Some ?init \<and>
       panes (snd ?f) (id' (hd (channels exampleChat))) =
         (panes exampleChat (id' (hd (channels exampleChat))))\<lparr>needsClearing := True\<rparr>"
    by blast
  then have a: "channelStore (snd ?f) ''all'' = Some ?init"
    and n: "needsClearing (panes (snd ?f) ''all'')"
    by (simp_all add: ch(3))
  from k ch(4) have "channelStore (snd ?f) ''alerts'' = channelStore exampleChat ''alerts''"
    by blast
  with c a n ch(5)
  have 1: "oldBBox (snd ?f) = Some ?far \<and> channelStore (snd ?f) ''all'' = Some ?init \<and>
      needsClearing (panes (snd ?f) ''all'') \<and> channelStore (snd ?f) ''alerts'' = Some tieState"
    by simp
  from genPostData_viewport [OF pn old(2)] near
  have 2: "channelStore (snd ?n) = channelStore exampleChat" by blast
  from 1 2 show ?thesis by simp
qed

subsection \<open>Requests and their failure\<close>

lemma clearOnBBoxChange_frame:
  "outbox (clearOnBBoxChange L b s) = outbox s"
  "requestRunning (clearOnBBoxChange L b s) = requestRunning s"
  "statusRenders (clearOnBBoxChange L b s) = statusRenders s"
  "loading (clearOnBBoxChange L b s) = loading s"
  "channels (clearOnBBoxChange L b s) = channels s"
  by (simp_all add: clearOnBBoxChange_def Let_def foldl_resetIfLocal_frame)

lemma clearOnBBoxChange_defined:
  "channelStore s c \<noteq> None \<Longrightarrow> channelStore (clearOnBBoxChange L b s) c \<noteq> None"
  by (cases "sameBBox L b (case oldBBox s of None \<Rightarrow> b | Some b0 \<Rightarrow> b0)")
     (simp_all add: clearOnBBoxChange_same clearOnBBoxChange_changed)

lemma genPostData_defined:
  assumes "channelStore s c \<noteq> None"
  shows "\<exists>d. genPostData L b s (JSString c) older = (Inr d, clearOnBBoxChange L b s)"
proof -
  from assms obtain st where "channelStore (clearOnBBoxChange L b s) c = Some st"
    using clearOnBBoxChange_defined [of s c L b] by auto
  then show ?thesis
    by (cases older) (simp_all add: genPostData_string Let_def)
qed

lemma requestChannel_issue:
  assumes "channelStore s c \<noteq> None" and "\<not> isIdle E" and "isRetry \<or> \<not> requestRunning s (StringKey c)"
  shows "\<exists>d s'. requestChannel E s (JSString c) older isRetry = (Inr (), s') \<and>
           outbox s' = outbox s @
             [\<lparr>postData = d, req_channel = JSString c, req_getOlderMsgs = older,
               req_isRetry = isRetry\<rparr>] \<and>
           requestRunning s' (StringKey c) \<and>
           fst (genPostData (leaflet E) (mapBounds E)
             (s\<lparr>requestRunning := (requestRunning s)(StringKey c := True), loading := insert c (loading s)\<rparr>)
             (JSString c) older) = Inr d"
proof -
  let ?s1 = "s\<lparr>requestRunning := (requestRunning s)(StringKey c := True), loading := insert c (loading s)\<rparr>"
  let ?s2 = "clearOnBBoxChange (leaflet E) (mapBounds E) ?s1"
  have "channelStore ?s1 c \<noteq> None" using assms(1) by simp
  from genPostData_defined [OF this, of "leaflet E" "mapBounds E" older]
  obtain d where d: "genPostData (leaflet E) (mapBounds E) ?s1 (JSString c) older = (Inr d, ?s2)"
    by blast
  let ?s3 = "?s2\<lparr>outbox := outbox ?s2 @
         [\<lparr>postData = d, req_channel = JSString c, req_getOlderMsgs = older,
           req_isRetry = isRetry\<rparr>]\<rparr>"
  have r: "requestChannel E s (JSString c) older isRetry = (Inr (), ?s3)"
    using assms(2,3) d by (auto simp add: requestChannel_def Let_def)
  have x: "outbox ?s3 = outbox s @
         [\<lparr>postData = d, req_channel = JSString c, req_getOlderMsgs = older,
           req_isRetry = isRetry\<rparr>]" and rr: "requestRunning ?s3 (StringKey c)"
    by (simp_all add: clearOnBBoxChange_frame)
  from d have "fst (genPostData (leaflet E) (mapBounds E) ?s1 (JSString c) older) = Inr d"
    by simp
  with r x rr show ?thesis by blast
qed


text \<open>
  C6 (amended). Let a request for the string channel \<open>c\<close> fail while the channel's
  object exists. If it was a retry, the in-flight flag of \<open>c\<close> is cleared and nothing
  else changes: no request is issued and nothing is logged. If it was not a retry and
  the client is not idle, \<^verbatim>\<open>requestChannel\<close> issues one more request for the same channel
  and \<open>getOlderMsgs\<close>, marked as a retry, with freshly built data, and the flag stays
  set. If the client is idle, no request is issued and only the status is rendered. No
  case throws. A call that is not a retry, for a channel whose flag is set, does nothing.
\<close>

theorem requestFailed_retry_once:
  assumes "req_channel r = JSString c" and "channelStore s c \<noteq> None"
  shows "(req_isRetry r \<longrightarrow>
            requestFailed E s r = (Inr (), s\<lparr>requestRunning := (requestRunning s)(StringKey c := False)\<rparr>)) \<and>
         (\<not> req_isRetry r \<and> \<not> isIdle E \<longrightarrow>
            (\<exists>d s'. requestFailed E s r = (Inr (), s') \<and>
               outbox s' = outbox s @
                 [\<lparr>postData = d, req_channel = JSString c,
                   req_getOlderMsgs = req_getOlderMsgs r, req_isRetry = True\<rparr>] \<and>
               requestRunning s' (StringKey c) \<and>
               fst (genPostData (leaflet E) (mapBounds E)
                 (s\<lparr>requestRunning := (requestRunning s)(StringKey c := True),
                    loading := insert c (loading s)\<rparr>)
                 (JSString c) (req_getOlderMsgs r)) = Inr d)) \<and>
         (\<not> req_isRetry r \<and> isIdle E \<longrightarrow>
            requestFailed E s r = (Inr (), s\<lparr>statusRenders := Suc (statusRenders s)\<rparr>)) \<and>
         (requestRunning s (js_toPropertyKey channel) \<longrightarrow>
            requestChannel E s channel older False = (Inr (), s))"
proof (intro conjI impI)
  assume "req_isRetry r"
  then show "requestFailed E s r = (Inr (), s\<lparr>requestRunning := (requestRunning s)(StringKey c := False)\<rparr>)"
    by (simp add: requestFailed_def assms(1))
next
  assume a: "\<not> req_isRetry r \<and> \<not> isIdle E"
  then have f: "requestFailed E s r = requestChannel E s (JSString c) (req_getOlderMsgs r) True"
    by (simp add: requestFailed_def assms(1))
  from requestChannel_issue [OF assms(2), of E True "req_getOlderMsgs r"] a
  show "\<exists>d s'. requestFailed E s r = (Inr (), s') \<and>
               outbox s' = outbox s @
                 [\<lparr>postData = d, req_channel = JSString c,
                   req_getOlderMsgs = req_getOlderMsgs r, req_isRetry = True\<rparr>] \<and>
               requestRunning s' (StringKey c) \<and>
               fst (genPostData (leaflet E) (mapBounds E)
                 (s\<lparr>requestRunning := (requestRunning s)(StringKey c := True),
                    loading := insert c (loading s)\<rparr>)
                 (JSString c) (req_getOlderMsgs r)) = Inr d"
    unfolding f by blast
next
  assume "\<not> req_isRetry r \<and> isIdle E"
  then show "requestFailed E s r = (Inr (), s\<lparr>statusRenders := Suc (statusRenders s)\<rparr>)"
    by (simp add: requestFailed_def requestChannel_def assms(1))
next
  assume "requestRunning s (js_toPropertyKey channel)"
  then show "requestChannel E s channel older False = (Inr (), s)"
    by (simp add: requestChannel_def)
qed

lemma issued: "outbox exampleIssued =
   [\<lparr>postData = \<lparr>minLatE6 = 0, minLngE6 = 0, maxLatE6 = 10000000, maxLngE6 = 10000000,
                  minTimestampMs = 100, maxTimestampMs = - 1, tab = ''all'',
                  plextContinuationGuid = Some ''g2'', ascendingTimestampOrder = Some True\<rparr>,
      req_channel = JSString ''all'', req_getOlderMsgs = False, req_isRetry = False\<rparr>]"
  "requestRunning exampleIssued (StringKey ''all'')"
  "channelStore exampleIssued ''all'' = Some tieState"
  "logged exampleIssued = []"
  by (simp_all add: exampleIssued_def requestChannel_def genPostData_string chat_eval tieState_def merge_eval)


text \<open>
  The first request of the example fails and is issued again as a retry; a failing retry
  clears the flag; a further plain call while the flag is set does nothing.
\<close>

theorem requestFailed_retry_once_witness:
  "(\<exists>d s'. requestFailed examplePage exampleIssued (hd (outbox exampleIssued)) = (Inr (), s') \<and>
      outbox s' = outbox exampleIssued @
        [\<lparr>postData = d, req_channel = JSString ''all'', req_getOlderMsgs = False,
          req_isRetry = True\<rparr>] \<and>
      requestRunning s' (StringKey ''all'')) \<and>
   requestFailed examplePage exampleIssued (exampleRequest True) =
     (Inr (), exampleIssued\<lparr>requestRunning := (requestRunning exampleIssued)(StringKey ''all'' := False)\<rparr>) \<and>
   requestChannel examplePage exampleIssued (JSString ''all'') False False = (Inr (), exampleIssued)"
proof -
  let ?r = "hd (outbox exampleIssued)"
  have r: "req_channel ?r = JSString ''all''" "\<not> req_isRetry ?r" "req_getOlderMsgs ?r = False"
    by (simp_all add: issued(1))
  have r2: "req_channel (exampleRequest True) = JSString ''all''" "req_isRetry (exampleRequest True)"
    by (simp_all add: exampleRequest_def)
  have c: "channelStore exampleIssued ''all'' \<noteq> None"
    by (simp add: issued(3))
  have i: "\<not> isIdle examplePage" by (simp add: examplePage_def)
  from requestFailed_retry_once [OF r(1) c, of examplePage "JSString ''all''" False] r(2,3) i issued(2)
  have 1: "(\<exists>d s'. requestFailed examplePage exampleIssued ?r = (Inr (), s') \<and>
      outbox s' = outbox exampleIssued @
        [\<lparr>postData = d, req_channel = JSString ''all'', req_getOlderMsgs = False,
          req_isRetry = True\<rparr>] \<and>
      requestRunning s' (StringKey ''all''))"
    and 3: "requestChannel examplePage exampleIssued (JSString ''all'') False False = (Inr (), exampleIssued)"
    by auto
  from requestFailed_retry_once [OF r2(1) c, of examplePage "JSString ''all''" False] r2(2)
  have 2: "requestFailed examplePage exampleIssued (exampleRequest True) =
     (Inr (), exampleIssued\<lparr>requestRunning := (requestRunning exampleIssued)(StringKey ''all'' := False)\<rparr>)"
    by blast
  from 1 2 3 show ?thesis by blast
qed

text \<open>
  C6 as stated fails in two places: the failure callback of a retry writes no log line,
  and the failure callback of a first request issues nothing when the client is idle
  (the in-flight flag then stays set).
\<close>

theorem requestFailed_counterexample:
  "req_isRetry (exampleRequest True) \<and>
   logged (snd (requestFailed examplePage exampleIssued (exampleRequest True))) = logged exampleIssued \<and>
   \<not> req_isRetry (hd (outbox exampleIssued)) \<and>
   outbox (snd (requestFailed (examplePage\<lparr>isIdle := True\<rparr>) exampleIssued (hd (outbox exampleIssued)))) =
     outbox exampleIssued \<and>
   requestRunning (snd (requestFailed (examplePage\<lparr>isIdle := True\<rparr>) exampleIssued
     (hd (outbox exampleIssued)))) (StringKey ''all'')"
  by (simp add: requestFailed_def requestChannel_def exampleRequest_def issued)

subsection \<open>The renderer\<close>











subsection \<open>The tab chooser\<close>







text \<open>
  When jQuery reads the attribute of the active link as anything but a string, as it
  does for an id that looks like a number, no old channel is found and its input class
  stays.
\<close>

lemma getChannelDesc_no_string:
  assumes "\<forall>c. t \<noteq> JSString c"
  shows "getChannelDesc chans t = None"
proof -
  have "foldl (\<lambda>channelObject entry. if JSString (id' entry) = t then Some entry else channelObject)
      acc chans = acc" for acc
    using assms by (induction chans arbitrary: acc) auto
  then show ?thesis by (simp add: getChannelDesc_def)
qed

lemma leaveOldTab_no_string:
  assumes "\<forall>c. getActive B s \<noteq> JSString c"
  shows "leaveOldTab B s tab1 = s\<lparr>storedTab := Some tab1\<rparr>"
  by (simp add: leaveOldTab_def Let_def getChannelDesc_no_string [OF assms])















subsection \<open>The markup transformation\<close>

lemma take_prefix_trans:
  fixes xs ys zs :: "'a list"
  assumes "length xs \<le> length ys" and "take (length xs) ys = xs" and "take (length ys) zs = ys"
  shows "take (length xs) zs = xs"
proof -
  have "take (length xs) (take (length ys) zs) = take (length xs) zs"
    using assms(1) by (simp add: min_def)
  with assms(2,3) show ?thesis by simp
qed

lemma unchangedOn_trans:
  assumes "unchangedOn h h1" and "unchangedOn h1 h2"
  shows "unchangedOn h h2"
proof -
  from assms have
    a: "length (arrays h) \<le> length (arrays h1)" "take (length (arrays h)) (arrays h1) = arrays h"
       "length (arrays h1) \<le> length (arrays h2)" "take (length (arrays h1)) (arrays h2) = arrays h1"
    and e: "length (entities h) \<le> length (entities h1)" "take (length (entities h)) (entities h1) = entities h"
       "length (entities h1) \<le> length (entities h2)" "take (length (entities h1)) (entities h2) = entities h1"
    and o: "length (objects h) \<le> length (objects h1)" "take (length (objects h)) (objects h1) = objects h"
       "length (objects h1) \<le> length (objects h2)" "take (length (objects h1)) (objects h2) = objects h1"
    by (simp_all add: unchangedOn_def)
  have "take (length (arrays h)) (arrays h2) = arrays h"
    using a(1,2,4) by (rule take_prefix_trans)
  moreover have "take (length (entities h)) (entities h2) = entities h"
    using e(1,2,4) by (rule take_prefix_trans)
  moreover have "take (length (objects h)) (objects h2) = objects h"
    using o(1,2,4) by (rule take_prefix_trans)
  ultimately show ?thesis
    using a(1,3) e(1,3) o(1,3) by (simp add: unchangedOn_def)
qed

lemma take_prefix_nth:
  fixes xs ys :: "'a list"
  assumes "take (length xs) ys = xs" and "i < length xs"
  shows "ys ! i = xs ! i"
proof -
  have "take (length xs) ys ! i = ys ! i" using assms(2) by simp
  with assms(1) show ?thesis by simp
qed

lemma unchangedOn_nth:
  assumes "unchangedOn h h'"
  shows "i < length (arrays h) \<Longrightarrow> arrays h' ! i = arrays h ! i"
    and "i < length (entities h) \<Longrightarrow> entities h' ! i = entities h ! i"
    and "i < length (objects h) \<Longrightarrow> objects h' ! i = objects h ! i"
  using assms by (simp_all add: unchangedOn_def take_prefix_nth)

lemma readMarkup_unchanged:
  assumes "unchangedOn h h'" and "wf_markup h a"
  shows "readMarkup h' a = readMarkup h a"
proof -
  from assms(2) have a: "a < length (arrays h)"
    and e: "\<And>e. e \<in> set (arrays h ! a) \<Longrightarrow> e < length (entities h) \<and> snd (entities h ! e) < length (objects h)"
    by (auto simp add: wf_markup_def)
  have arr: "arrays h' ! a = arrays h ! a"
    using unchangedOn_nth(1) [OF assms(1) a] .
  show ?thesis
    unfolding readMarkup_def arr
  proof (rule map_cong [OF refl])
    fix x assume x: "x \<in> set (arrays h ! a)"
    from e [OF x] have 1: "entities h' ! x = entities h ! x"
      and 2: "objects h' ! snd (entities h ! x) = objects h ! snd (entities h ! x)"
      using unchangedOn_nth(2,3) [OF assms(1)] by auto
    show "(fst (entities h' ! x), objects h' ! snd (entities h' ! x)) =
        (fst (entities h ! x), objects h ! snd (entities h ! x))"
      by (simp add: 1 2)
  qed
qed

lemma jsonCopy_unchangedOn: "unchangedOn h (fst (jsonCopy h a))"
  by (simp add: jsonCopy_def Let_def unchangedOn_def)

lemma jsonCopy_address: "snd (jsonCopy h a) = length (arrays h)"
  by (simp add: jsonCopy_def Let_def)

lemma jsonCopy_array:
  "arrays (fst (jsonCopy h a)) ! length (arrays h) =
     map (\<lambda>i. length (entities h) + i) [0 ..< length (arrays h ! a)]"
  by (simp add: jsonCopy_def Let_def)

lemma jsonCopy_entity:
  "i < length (arrays h ! a) \<Longrightarrow>
     entities (fst (jsonCopy h a)) ! (length (entities h) + i) =
       (fst (entities h ! (arrays h ! a ! i)), length (objects h) + i)"
  by (simp add: jsonCopy_def Let_def nth_append)

lemma jsonCopy_object:
  "i < length (arrays h ! a) \<Longrightarrow>
     objects (fst (jsonCopy h a)) ! (length (objects h) + i) =
       objects h ! snd (entities h ! (arrays h ! a ! i))"
  by (simp add: jsonCopy_def Let_def nth_append)

lemma jsonCopy_lengths:
  "length (arrays (fst (jsonCopy h a))) = Suc (length (arrays h))"
  "length (entities (fst (jsonCopy h a))) = length (entities h) + length (arrays h ! a)"
  "length (objects (fst (jsonCopy h a))) = length (objects h) + length (arrays h ! a)"
  by (simp_all add: jsonCopy_def Let_def)

lemma jsonCopy_read: "readMarkup (fst (jsonCopy h a)) (length (arrays h)) = readMarkup h a"
proof (rule nth_equalityI)
  show "length (readMarkup (fst (jsonCopy h a)) (length (arrays h))) = length (readMarkup h a)"
    by (simp add: readMarkup_def jsonCopy_array)
next
  fix i assume "i < length (readMarkup (fst (jsonCopy h a)) (length (arrays h)))"
  then have i: "i < length (arrays h ! a)"
    by (simp add: readMarkup_def jsonCopy_array)
  then show "readMarkup (fst (jsonCopy h a)) (length (arrays h)) ! i = readMarkup h a ! i"
    by (simp add: readMarkup_def jsonCopy_array jsonCopy_entity jsonCopy_object)
qed

lemma jsonCopy_fresh: "freshCopy h (fst (jsonCopy h a)) (length (arrays h))"
proof -
  let ?n = "length (arrays h ! a)"
  have 1: "list_all (\<lambda>e. length (entities h) \<le> e \<and> e < length (entities (fst (jsonCopy h a))) \<and>
                    length (objects h) \<le> snd (entities (fst (jsonCopy h a)) ! e) \<and>
                    snd (entities (fst (jsonCopy h a)) ! e) < length (objects (fst (jsonCopy h a))))
        (map (\<lambda>i. length (entities h) + i) [0 ..< ?n])"
    unfolding list_all_iff
  proof
    fix e assume "e \<in> set (map (\<lambda>i. length (entities h) + i) [0 ..< ?n])"
    then have "e \<in> (\<lambda>i. length (entities h) + i) ` {0 ..< ?n}"
      by (simp only: set_map set_upt)
    then obtain i where "i \<in> {0 ..< ?n}" and i2: "e = length (entities h) + i" by blast
    then have i: "i < ?n" "e = length (entities h) + i" by simp_all
    then show "length (entities h) \<le> e \<and> e < length (entities (fst (jsonCopy h a))) \<and>
                    length (objects h) \<le> snd (entities (fst (jsonCopy h a)) ! e) \<and>
                    snd (entities (fst (jsonCopy h a)) ! e) < length (objects (fst (jsonCopy h a)))"
      by (simp add: jsonCopy_entity jsonCopy_lengths)
  qed
  have eq: "map (\<lambda>e. snd (entities (fst (jsonCopy h a)) ! e)) (map (\<lambda>i. length (entities h) + i) [0 ..< ?n]) =
      map (\<lambda>i. length (objects h) + i) [0 ..< ?n]"
    unfolding map_map o_def
  proof (rule map_cong [OF refl])
    fix i assume "i \<in> set [0 ..< ?n]"
    then have "i < ?n" by simp
    then show "snd (entities (fst (jsonCopy h a)) ! (length (entities h) + i)) = length (objects h) + i"
      by (simp add: jsonCopy_entity)
  qed
  have "distinct (map (\<lambda>i. length (objects h) + i) [0 ..< ?n])"
    by (simp add: distinct_map inj_on_def)
  then have 2: "distinct (map (\<lambda>e. snd (entities (fst (jsonCopy h a)) ! e))
      (map (\<lambda>i. length (entities h) + i) [0 ..< ?n]))"
    by (simp only: eq)
  show ?thesis
    unfolding freshCopy_def jsonCopy_array using 1 2 by (simp add: jsonCopy_lengths)
qed


lemma readMarkup_length: "length (readMarkup h a) = length (arrays h ! a)"
  by (simp add: readMarkup_def)

lemma readMarkup_nth:
  "k < length (arrays h ! a) \<Longrightarrow>
     readMarkup h a ! k = (entType h a k, objects h ! entObject h a k)"
  by (simp add: readMarkup_def entType_def entObject_def)

lemma distinct_splice:
  assumes "distinct ys"
  shows "distinct (splice i n ys)"
proof -
  have "distinct (take i ys @ drop i ys)" using assms by simp
  then have d: "set (take i ys) \<inter> set (drop i ys) = {}" "distinct (take i ys)"
    by (simp_all only: distinct_append)
  have "set (drop (i + n) ys) \<subseteq> set (drop i ys)"
    using set_drop_subset [of n "drop i ys"] by (simp add: add.commute)
  with d have "set (take i ys) \<inter> set (drop (i + n) ys) = {}" by blast
  with d(2) assms show ?thesis by (simp add: splice_def)
qed

lemma map_splice: "map f (splice i n xs) = splice i n (map f xs)"
  by (simp add: splice_def take_map drop_map)

lemma set_splice: "set (splice i n xs) \<subseteq> set xs"
proof -
  have "set (take i xs) \<subseteq> set xs" by (rule set_take_subset)
  moreover have "set (drop (i + n) xs) \<subseteq> set xs" by (rule set_drop_subset)
  ultimately show ?thesis by (simp add: splice_def)
qed

lemma splice_step:
  assumes u: "unchangedOn h h'" and f: "freshCopy h h' nm"
  shows "unchangedOn h (h'\<lparr>arrays := (arrays h')[nm := splice i n (arrays h' ! nm)]\<rparr>)"
    and "freshCopy h (h'\<lparr>arrays := (arrays h')[nm := splice i n (arrays h' ! nm)]\<rparr>) nm"
    and "readMarkup (h'\<lparr>arrays := (arrays h')[nm := splice i n (arrays h' ! nm)]\<rparr>) nm =
           splice i n (readMarkup h' nm)"
proof -
  from f have nm: "length (arrays h) \<le> nm" "nm < length (arrays h')"
    and la: "list_all (\<lambda>e. length (entities h) \<le> e \<and> e < length (entities h') \<and>
                    length (objects h) \<le> snd (entities h' ! e) \<and>
                    snd (entities h' ! e) < length (objects h')) (arrays h' ! nm)"
    and di: "distinct (map (\<lambda>e. snd (entities h' ! e)) (arrays h' ! nm))"
    by (simp_all add: freshCopy_def)
  show "unchangedOn h (h'\<lparr>arrays := (arrays h')[nm := splice i n (arrays h' ! nm)]\<rparr>)"
    using u nm by (simp add: unchangedOn_def)
  have "list_all (\<lambda>e. length (entities h) \<le> e \<and> e < length (entities h') \<and>
                    length (objects h) \<le> snd (entities h' ! e) \<and>
                    snd (entities h' ! e) < length (objects h')) (splice i n (arrays h' ! nm))"
    using la set_splice [of i n "arrays h' ! nm"] unfolding list_all_iff by blast
  moreover have "distinct (map (\<lambda>e. snd (entities h' ! e)) (splice i n (arrays h' ! nm)))"
    using di by (simp only: map_splice distinct_splice)
  ultimately show "freshCopy h (h'\<lparr>arrays := (arrays h')[nm := splice i n (arrays h' ! nm)]\<rparr>) nm"
    using nm by (simp add: freshCopy_def)
  show "readMarkup (h'\<lparr>arrays := (arrays h')[nm := splice i n (arrays h' ! nm)]\<rparr>) nm =
           splice i n (readMarkup h' nm)"
    using nm by (simp add: readMarkup_def map_splice)
qed

lemma assign_step:
  assumes u: "unchangedOn h h'" and f: "freshCopy h h' nm" and k: "k < length (arrays h' ! nm)"
  shows "unchangedOn h (h'\<lparr>objects := (objects h')[entObject h' nm k := v]\<rparr>)"
    and "freshCopy h (h'\<lparr>objects := (objects h')[entObject h' nm k := v]\<rparr>) nm"
    and "readMarkup (h'\<lparr>objects := (objects h')[entObject h' nm k := v]\<rparr>) nm =
           (readMarkup h' nm)[k := (entType h' nm k, v)]"
proof -
  let ?xs = "arrays h' ! nm"
  let ?o = "\<lambda>e. snd (entities h' ! e)"
  from f have nm: "length (arrays h) \<le> nm" "nm < length (arrays h')"
    and la: "list_all (\<lambda>e. length (entities h) \<le> e \<and> e < length (entities h') \<and>
                    length (objects h) \<le> ?o e \<and> ?o e < length (objects h')) ?xs"
    and di: "distinct (map ?o ?xs)"
    by (simp_all add: freshCopy_def)
  from la k have ok: "length (objects h) \<le> entObject h' nm k" "entObject h' nm k < length (objects h')"
    by (simp_all add: list_all_length entObject_def)
  show "unchangedOn h (h'\<lparr>objects := (objects h')[entObject h' nm k := v]\<rparr>)"
    using u ok by (simp add: unchangedOn_def)
  show "freshCopy h (h'\<lparr>objects := (objects h')[entObject h' nm k := v]\<rparr>) nm"
    using f by (simp add: freshCopy_def)
  show "readMarkup (h'\<lparr>objects := (objects h')[entObject h' nm k := v]\<rparr>) nm =
           (readMarkup h' nm)[k := (entType h' nm k, v)]"
  proof (rule nth_equalityI)
    show "length (readMarkup (h'\<lparr>objects := (objects h')[entObject h' nm k := v]\<rparr>) nm) =
        length ((readMarkup h' nm)[k := (entType h' nm k, v)])"
      by (simp add: readMarkup_def)
  next
    fix j assume "j < length (readMarkup (h'\<lparr>objects := (objects h')[entObject h' nm k := v]\<rparr>) nm)"
    then have j: "j < length ?xs" by (simp add: readMarkup_def)
    show "readMarkup (h'\<lparr>objects := (objects h')[entObject h' nm k := v]\<rparr>) nm ! j =
        (readMarkup h' nm)[k := (entType h' nm k, v)] ! j"
    proof (cases "j = k")
      case True
      then show ?thesis
        using k ok by (simp add: readMarkup_def entType_def entObject_def)
    next
      case False
      have "(map ?o ?xs ! j = map ?o ?xs ! k) = (j = k)"
        using di j k by (intro nth_eq_iff_index_eq) simp_all
      then have "?o (?xs ! j) \<noteq> entObject h' nm k"
        using j k False by (simp add: entObject_def)
      then show ?thesis
        using j False by (simp add: readMarkup_def)
    qed
  qed
qed


lemma collapseFaction_step:
  assumes u: "unchangedOn h h'" and f: "freshCopy h h' nm"
  shows "unchangedOn h (collapseFaction h' nm)"
    and "freshCopy h (collapseFaction h' nm) nm"
    and "readMarkup (collapseFaction h' nm) nm = collapseFactionValue (readMarkup h' nm)"
proof -
  let ?m = "readMarkup h' nm"
  let ?c = "length (arrays h' ! nm) > 4 \<and> entType h' nm 3 = ''FACTION'' \<and> entType h' nm 4 = ''TEXT'' \<and>
           (plain (objects h' ! entObject h' nm 4) = '' Link '' \<or>
            plain (objects h' ! entObject h' nm 4) = '' Control Field @'')"
  have cond: "(length ?m > 4 \<and> fst (?m ! 3) = ''FACTION'' \<and> fst (?m ! 4) = ''TEXT'' \<and>
         (plain (snd (?m ! 4)) = '' Link '' \<or> plain (snd (?m ! 4)) = '' Control Field @'')) = ?c"
  proof (cases "length (arrays h' ! nm) > 4")
    case True
    from True have l3: "3 < length (arrays h' ! nm)" by linarith
    from True have l4: "4 < length (arrays h' ! nm)" by linarith
    note n = readMarkup_nth [OF l3] readMarkup_nth [OF l4]
    show ?thesis by (simp only: readMarkup_length n fst_conv snd_conv)
  next
    case False
    then show ?thesis by (simp add: readMarkup_length)
  qed
  let ?v = "(objects h' ! entObject h' nm 4)\<lparr>team := team (objects h' ! entObject h' nm 3)\<rparr>"
  let ?h1 = "h'\<lparr>objects := (objects h')[entObject h' nm 4 := ?v]\<rparr>"
  have "unchangedOn h (collapseFaction h' nm) \<and> freshCopy h (collapseFaction h' nm) nm \<and>
      readMarkup (collapseFaction h' nm) nm = collapseFactionValue ?m"
  proof (cases ?c)
    case False
    then have "collapseFaction h' nm = h'" by (auto simp add: collapseFaction_def)
    moreover have "collapseFactionValue ?m = ?m"
      unfolding collapseFactionValue_def cond by (rule if_not_P) (fact False)
    ultimately show ?thesis using u f by simp
  next
    case True
    then have k: "4 < length (arrays h' ! nm)" by simp
    then have k3: "3 < length (arrays h' ! nm)" by linarith
    note n = readMarkup_nth [OF k3] readMarkup_nth [OF k]
    note a = assign_step [OF u f k, of ?v]
    note sp = splice_step [OF a(1) a(2), of 3 1]
    have c: "collapseFaction h' nm = ?h1\<lparr>arrays := (arrays ?h1)[nm := splice 3 1 (arrays ?h1 ! nm)]\<rparr>"
      using True by (simp add: collapseFaction_def Let_def)
    have "collapseFactionValue ?m =
        splice 3 1 (?m[4 := (fst (?m ! 4), (snd (?m ! 4))\<lparr>team := team (snd (?m ! 3))\<rparr>)])"
      unfolding collapseFactionValue_def cond by (rule if_P) (fact True)
    then have v: "collapseFactionValue ?m = splice 3 1 (?m[4 := (entType h' nm 4, ?v)])"
      by (simp only: n fst_conv snd_conv)
    have "readMarkup (collapseFaction h' nm) nm = collapseFactionValue ?m"
      unfolding c v using sp(3) a(3) by simp
    moreover have "unchangedOn h (collapseFaction h' nm)" unfolding c by (rule sp(1))
    moreover have "freshCopy h (collapseFaction h' nm) nm" unfolding c by (rule sp(2))
    ultimately show ?thesis by simp
  qed
  then show "unchangedOn h (collapseFaction h' nm)"
    and "freshCopy h (collapseFaction h' nm) nm"
    and "readMarkup (collapseFaction h' nm) nm = collapseFactionValue (readMarkup h' nm)"
    by simp_all
qed

lemma skipAgent_step:
  assumes u: "unchangedOn h h'" and f: "freshCopy h h' nm"
  shows "unchangedOn h (skipAgent h' nm)"
    and "freshCopy h (skipAgent h' nm) nm"
    and "readMarkup (skipAgent h' nm) nm = skipAgentValue (readMarkup h' nm)"
proof -
  let ?m = "readMarkup h' nm"
  let ?c = "length (arrays h' ! nm) > 1 \<and> entType h' nm 0 = ''TEXT'' \<and>
      plain (objects h' ! entObject h' nm 0) = ''Agent '' \<and> entType h' nm 1 = ''PLAYER''"
  have cond: "(length ?m > 1 \<and> fst (?m ! 0) = ''TEXT'' \<and> plain (snd (?m ! 0)) = ''Agent '' \<and>
         fst (?m ! 1) = ''PLAYER'') = ?c"
  proof (cases "length (arrays h' ! nm) > 1")
    case True
    from True have l0: "0 < length (arrays h' ! nm)" by linarith
    from True have l1: "1 < length (arrays h' ! nm)" by linarith
    note n = readMarkup_nth [OF l0] readMarkup_nth [OF l1]
    show ?thesis by (simp only: readMarkup_length n fst_conv snd_conv)
  next
    case False
    then show ?thesis by (simp add: readMarkup_length)
  qed
  note sp = splice_step [OF u f, of 0 2]
  have "unchangedOn h (skipAgent h' nm) \<and> freshCopy h (skipAgent h' nm) nm \<and>
      readMarkup (skipAgent h' nm) nm = skipAgentValue ?m"
  proof (cases ?c)
    case False
    then have "skipAgent h' nm = h'" by (auto simp add: skipAgent_def)
    moreover have "skipAgentValue ?m = ?m"
      unfolding skipAgentValue_def cond by (rule if_not_P) (fact False)
    ultimately show ?thesis using u f by simp
  next
    case True
    then have "skipAgent h' nm = h'\<lparr>arrays := (arrays h')[nm := splice 0 2 (arrays h' ! nm)]\<rparr>"
      by (simp add: skipAgent_def)
    moreover have "skipAgentValue ?m = splice 0 2 ?m"
      unfolding skipAgentValue_def cond by (rule if_P) (fact True)
    ultimately show ?thesis using sp by simp
  qed
  then show "unchangedOn h (skipAgent h' nm)"
    and "freshCopy h (skipAgent h' nm) nm"
    and "readMarkup (skipAgent h' nm) nm = skipAgentValue (readMarkup h' nm)"
    by simp_all
qed

lemma skipFactionAgent_step:
  assumes u: "unchangedOn h h'" and f: "freshCopy h h' nm"
  shows "unchangedOn h (skipFactionAgent h' nm)"
    and "freshCopy h (skipFactionAgent h' nm) nm"
    and "readMarkup (skipFactionAgent h' nm) nm = skipFactionAgentValue (readMarkup h' nm)"
proof -
  let ?m = "readMarkup h' nm"
  let ?c = "length (arrays h' ! nm) > 2 \<and> entType h' nm 0 = ''FACTION'' \<and> entType h' nm 1 = ''TEXT'' \<and>
      plain (objects h' ! entObject h' nm 1) = '' agent '' \<and> entType h' nm 2 = ''PLAYER''"
  have cond: "(length ?m > 2 \<and> fst (?m ! 0) = ''FACTION'' \<and> fst (?m ! 1) = ''TEXT'' \<and>
         plain (snd (?m ! 1)) = '' agent '' \<and> fst (?m ! 2) = ''PLAYER'') = ?c"
  proof (cases "length (arrays h' ! nm) > 2")
    case True
    from True have l0: "0 < length (arrays h' ! nm)" by linarith
    from True have l1: "1 < length (arrays h' ! nm)" by linarith
    from True have l2: "2 < length (arrays h' ! nm)" by linarith
    note n = readMarkup_nth [OF l0] readMarkup_nth [OF l1] readMarkup_nth [OF l2]
    show ?thesis by (simp only: readMarkup_length n fst_conv snd_conv)
  next
    case False
    then show ?thesis by (simp add: readMarkup_length)
  qed
  note sp = splice_step [OF u f, of 0 3]
  have "unchangedOn h (skipFactionAgent h' nm) \<and> freshCopy h (skipFactionAgent h' nm) nm \<and>
      readMarkup (skipFactionAgent h' nm) nm = skipFactionAgentValue ?m"
  proof (cases ?c)
    case False
    then have "skipFactionAgent h' nm = h'" by (auto simp add: skipFactionAgent_def)
    moreover have "skipFactionAgentValue ?m = ?m"
      unfolding skipFactionAgentValue_def cond by (rule if_not_P) (fact False)
    ultimately show ?thesis using u f by simp
  next
    case True
    then have "skipFactionAgent h' nm = h'\<lparr>arrays := (arrays h')[nm := splice 0 3 (arrays h' ! nm)]\<rparr>"
      by (simp add: skipFactionAgent_def)
    moreover have "skipFactionAgentValue ?m = splice 0 3 ?m"
      unfolding skipFactionAgentValue_def cond by (rule if_P) (fact True)
    ultimately show ?thesis using sp by simp
  qed
  then show "unchangedOn h (skipFactionAgent h' nm)"
    and "freshCopy h (skipFactionAgent h' nm) nm"
    and "readMarkup (skipFactionAgent h' nm) nm = skipFactionAgentValue (readMarkup h' nm)"
    by simp_all
qed

text \<open>
  C10. For every heap and every markup array in it whose cells are allocated,
  \<^verbatim>\<open>transformMessage\<close> leaves every cell of the heap as it was, so the argument reads
  as before; the array it returns, its entity arrays and their attribute objects are all
  allocated by the call, and no two entities of the result share an object; and the
  value of the result is the transformation applied to the value of the argument,
  whichever of the three steps apply.
\<close>

theorem transformMessage_pure:
  assumes "wf_markup h a" and "transformMessage h a = (h', a')"
  shows "unchangedOn h h' \<and> readMarkup h' a = readMarkup h a \<and>
         freshCopy h h' a' \<and> readMarkup h' a' = transformValue (readMarkup h a)"
proof -
  let ?h0 = "fst (jsonCopy h a)"
  let ?nm = "length (arrays h)"
  let ?h1 = "collapseFaction ?h0 ?nm"
  let ?h2 = "skipAgent ?h1 ?nm"
  have t: "transformMessage h a = (skipFactionAgent ?h2 ?nm, ?nm)"
    by (simp add: transformMessage_def case_prod_beta jsonCopy_address)
  from assms(2) have "(skipFactionAgent ?h2 ?nm, ?nm) = (h', a')"
    unfolding t .
  then have r: "h' = skipFactionAgent ?h2 ?nm" "a' = ?nm"
    by auto
  note s0 = jsonCopy_unchangedOn [of h a] jsonCopy_fresh [of h a] jsonCopy_read [of h a]
  note s1 = collapseFaction_step [OF s0(1,2)]
  note s2 = skipAgent_step [OF s1(1,2)]
  note s3 = skipFactionAgent_step [OF s2(1,2)]
  have v: "readMarkup h' a' = transformValue (readMarkup h a)"
    unfolding r by (simp only: s3(3) s2(3) s1(3) s0(3) transformValue_def)
  have u: "unchangedOn h h'" unfolding r by (rule s3(1))
  have f: "freshCopy h h' a'" unfolding r by (rule s3(2))
  have i: "readMarkup h' a = readMarkup h a"
    using u assms(1) by (rule readMarkup_unchanged)
  from u i f v show ?thesis by simp
qed


lemma exampleHeap_read:
  "readMarkup exampleHeap 0 =
     [(''TEXT'', \<lparr>plain = ''Agent '', team = None, others = []\<rparr>),
      (''PLAYER'', \<lparr>plain = ''bob'', team = Some ''RESISTANCE'', others = []\<rparr>),
      (''TEXT'', \<lparr>plain = '' destroyed the '', team = None, others = []\<rparr>),
      (''FACTION'', \<lparr>plain = ''Enlightened'', team = Some ''ENLIGHTENED'', others = []\<rparr>),
      (''TEXT'', \<lparr>plain = '' Link '', team = None, others = []\<rparr>),
      (''PORTAL'', \<lparr>plain = ''Gate (Main St)'', team = Some ''ENLIGHTENED'',
          others = [(''name'', PStr ''Gate''), (''latE6'', PNum 1000000)]\<rparr>)]"
  by (simp add: readMarkup_def exampleHeap_def)

lemma exampleHeap_value:
  "transformValue (readMarkup exampleHeap 0) =
     [(''TEXT'', \<lparr>plain = '' destroyed the '', team = None, others = []\<rparr>),
      (''TEXT'', \<lparr>plain = '' Link '', team = Some ''ENLIGHTENED'', others = []\<rparr>),
      (''PORTAL'', \<lparr>plain = ''Gate (Main St)'', team = Some ''ENLIGHTENED'',
          others = [(''name'', PStr ''Gate''), (''latE6'', PNum 1000000)]\<rparr>)]"
  unfolding exampleHeap_read
  by (simp add: transformValue_def collapseFactionValue_def skipAgentValue_def
      skipFactionAgentValue_def splice_def)

text \<open>
  On the example heap the FACTION entity is collapsed into the following TEXT entity,
  whose copy gets the team, and \<open>Agent bob\<close> is dropped; the argument at address 0 and
  the six entities and objects of the old heap are as before.
\<close>

theorem transformMessage_pure_witness:
  "snd (transformMessage exampleHeap 0) = 1 \<and>
   readMarkup (fst (transformMessage exampleHeap 0)) 0 = readMarkup exampleHeap 0 \<and>
   readMarkup (fst (transformMessage exampleHeap 0)) 1 =
     [(''TEXT'', \<lparr>plain = '' destroyed the '', team = None, others = []\<rparr>),
      (''TEXT'', \<lparr>plain = '' Link '', team = Some ''ENLIGHTENED'', others = []\<rparr>),
      (''PORTAL'', \<lparr>plain = ''Gate (Main St)'', team = Some ''ENLIGHTENED'',
          others = [(''name'', PStr ''Gate''), (''latE6'', PNum 1000000)]\<rparr>)] \<and>
   take 1 (arrays (fst (transformMessage exampleHeap 0))) = arrays exampleHeap \<and>
   take 6 (entities (fst (transformMessage exampleHeap 0))) = entities exampleHeap \<and>
   take 6 (objects (fst (transformMessage exampleHeap 0))) = objects exampleHeap"
proof -
  have wf: "wf_markup exampleHeap 0"
    by (simp add: wf_markup_def exampleHeap_def)
  have p: "transformMessage exampleHeap 0 =
      (fst (transformMessage exampleHeap 0), snd (transformMessage exampleHeap 0))"
    by simp
  have a: "snd (transformMessage exampleHeap 0) = 1"
    by (simp add: transformMessage_def case_prod_beta jsonCopy_def Let_def exampleHeap_def)
  have l: "length (arrays exampleHeap) = 1" "length (entities exampleHeap) = 6"
    "length (objects exampleHeap) = 6"
    by (simp_all add: exampleHeap_def)
  from transformMessage_pure [OF wf p]
  show ?thesis
    unfolding a exampleHeap_value unchangedOn_def l by simp
qed

end
